theory Spec2Isabelle
  imports Main
begin

section \<open>Exceptions\<close>

text \<open>
  The exceptions that the modelled code paths of \<^verbatim>\<open>generate.py\<close> can raise. None of them
  is caught anywhere in the program, so each one ends the run. \<open>XMLSyntaxError\<close> is what
  \<^verbatim>\<open>ET.parse\<close> raises on text that is not well-formed; \<open>IndexError\<close> is \<^verbatim>\<open>tag[0]\<close> on an
  empty XPath result; \<open>AttributeError\<close> is \<^verbatim>\<open>.split\<close> on a \<^verbatim>\<open>None\<close> text; \<open>KeyError\<close> is
  \<^verbatim>\<open>level_map[level]\<close> outside 0..3.
\<close>

datatype error =
    XMLSyntaxError
  | IndexError
  | AttributeError
  | KeyError
  | IsADirectoryError
  | FileExistsError

section \<open>Strings and paths\<close>

definition startswith :: "string \<Rightarrow> string \<Rightarrow> bool" where
  "startswith s p = (take (length p) s = p)"

definition endswith :: "string \<Rightarrow> string \<Rightarrow> bool" where
  "endswith s p = (length p \<le> length s \<and> drop (length s - length p) s = p)"

text \<open>\<^verbatim>\<open>sep.join(xs)\<close>.\<close>

fun str_join :: "string \<Rightarrow> string list \<Rightarrow> string" where
  "str_join sep [] = []"
| "str_join sep [x] = x"
| "str_join sep (x # y # ys) = x @ sep @ str_join sep (y # ys)"

text \<open>\<^verbatim>\<open>s.split(sep)\<close> for a one-character separator: never the empty list.\<close>

fun str_split :: "char \<Rightarrow> string \<Rightarrow> string list" where
  "str_split sep [] = [[]]"
| "str_split sep (c # cs) =
     (if c = sep then [] # str_split sep cs
      else (case str_split sep cs of
              [] \<Rightarrow> [[c]]
            | x # xs \<Rightarrow> (c # x) # xs))"

text \<open>
  \<^verbatim>\<open>os.path.join(a, b)\<close> of \<^verbatim>\<open>posixpath\<close>: an absolute \<open>b\<close> replaces \<open>a\<close>; otherwise
  \<open>b\<close> is appended, after a separator unless \<open>a\<close> is empty or already ends in one.
\<close>

definition path_join :: "string \<Rightarrow> string \<Rightarrow> string" where
  "path_join a b =
     (if startswith b ''/'' then b
      else if a = [] \<or> endswith a ''/'' then a @ b
      else a @ ''/'' @ b)"

section \<open>Parsed XML\<close>

text \<open>
  An \<^verbatim>\<open>lxml\<close> element, as far as the program looks at it: its tag, its text (\<^verbatim>\<open>None\<close> when
  the element has none) and its child elements in document order.
\<close>

datatype xml = Element (tag: string) (etext: "string option") (subelements: "xml list")

text \<open>
  \<^verbatim>\<open>.xpath("/a/b/c")\<close> for an absolute path of child steps: the root element must be
  named by the first step, every further step selects the children with that tag.
\<close>

primrec select_steps :: "xml list \<Rightarrow> string list \<Rightarrow> xml list" where
  "select_steps ns [] = ns"
| "select_steps ns (s # ss) =
     select_steps (filter (\<lambda>c. tag c = s) (concat (map subelements ns))) ss"

fun xpath :: "xml \<Rightarrow> string list \<Rightarrow> xml list" where
  "xpath root [] = []"
| "xpath root (s # ss) = select_steps (if tag root = s then [root] else []) ss"

section \<open>Questions\<close>

text \<open>
  \<^verbatim>\<open>class PTXStackQuestion\<close>. The slug function of \<^verbatim>\<open>python-slugify\<close>, \<^verbatim>\<open>ET.tostring\<close> (followed by
  \<^verbatim>\<open>.decode()\<close>) and \<^verbatim>\<open>os.path.relpath\<close> are library functions outside the repository: the
  model takes them as the parameters \<open>slugify\<close>, \<open>tostring\<close> and \<open>relpath\<close>. The file that
  \<^verbatim>\<open>open(filepath)\<close> yields is given by what \<^verbatim>\<open>ET.parse\<close> makes of it: \<open>None\<close> when the
  parser raises, the root element otherwise.
\<close>

record PTXStackQuestion =
  filepath :: string
  xmlid :: string
  title_tag :: string

definition PTXStackQuestion_init ::
  "(string \<Rightarrow> string) \<Rightarrow> (xml \<Rightarrow> string) \<Rightarrow> string \<Rightarrow> xml option \<Rightarrow> error + PTXStackQuestion" where
  "PTXStackQuestion_init slugify tostring path parsed =
     (case parsed of
        None \<Rightarrow> Inl XMLSyntaxError
      | Some doc \<Rightarrow>
          (case xpath doc [''quiz'', ''question'', ''name'', ''text''] of
             [] \<Rightarrow> Inl IndexError
           | t # _ \<Rightarrow>
               Inr \<lparr>filepath = path, xmlid = slugify path,
                    title_tag = tostring (Element ''title'' (etext t) (subelements t))\<rparr>))"

definition PTXStackQuestion_render ::
  "(string \<Rightarrow> string \<Rightarrow> string) \<Rightarrow> PTXStackQuestion \<Rightarrow> string \<Rightarrow> string" where
  \<open>PTXStackQuestion_render relpath q relative_to =
     (let rel_path = relpath (filepath q) relative_to in
      ''\<newline>'' @
      ''            <exercise>\<newline>'' @
      ''                '' @ title_tag q @ ''\<newline>'' @
      ''\<newline>'' @
      ''                <!--<introduction>\<newline>'' @
      ''                    <p></p>\<newline>'' @
      ''                </introduction>-->\<newline>'' @
      ''\<newline>'' @
      ''                <!-- A @label is required, becomes a filename in output -->\<newline>'' @
      ''                <stack label="'' @ xmlid q @ ''" xmlns:xi="http://www.w3.org/2001/XInclude">\<newline>'' @
      ''                    <xi:include href="'' @ rel_path @ ''" />\<newline>'' @
      ''                </stack>\<newline>'' @
      ''            </exercise>\<newline>'' @
      ''            '')\<close>

section \<open>Structural elements\<close>

text \<open>
  \<^verbatim>\<open>class PTXStructuralElement\<close> and its four subclasses, one constructor per class. The
  attributes are those the \<^verbatim>\<open>__init__\<close> methods set; \<open>xml_id\<close> exists for the three classes
  that set it, and \<^verbatim>\<open>PTXMain\<close> has none.
\<close>

datatype PTXStructuralElement =
    PTXMain (title: string) (title_slug: string) (introduction: string)
      (questions: "PTXStackQuestion list") (children: "PTXStructuralElement list")
      (foldername: string) (filename: string)
  | PTXChapter (title: string) (title_slug: string) (introduction: string)
      (questions: "PTXStackQuestion list") (children: "PTXStructuralElement list")
      (foldername: string) (filename: string) (xml_id: string)
  | PTXSection (title: string) (title_slug: string) (introduction: string)
      (questions: "PTXStackQuestion list") (children: "PTXStructuralElement list")
      (foldername: string) (filename: string) (xml_id: string)
  | PTXSubsection (title: string) (title_slug: string) (introduction: string)
      (questions: "PTXStackQuestion list") (children: "PTXStructuralElement list")
      (foldername: string) (filename: string) (xml_id: string)

text \<open>\<^verbatim>\<open>x or []\<close> for an optional list argument.\<close>

definition or_empty :: "'a list option \<Rightarrow> 'a list" where
  "or_empty x = (case x of None \<Rightarrow> [] | Some xs \<Rightarrow> xs)"

text \<open>
  The \<^verbatim>\<open>__init__\<close> methods. Each subclass runs the base initialiser (slug, folder
  \<open>slug\<close>, file \<open>slug.ptx\<close>) and then sets its own attributes.
\<close>

definition PTXMain_init ::
  "(string \<Rightarrow> string) \<Rightarrow> string \<Rightarrow> string \<Rightarrow> PTXStackQuestion list option \<Rightarrow>
   PTXStructuralElement list option \<Rightarrow> PTXStructuralElement" where
  "PTXMain_init slugify t intro qs cs =
     PTXMain t (slugify t) intro (or_empty qs) (or_empty cs) ''.'' ''main.ptx''"

definition PTXChapter_init ::
  "(string \<Rightarrow> string) \<Rightarrow> string \<Rightarrow> string \<Rightarrow> PTXStackQuestion list option \<Rightarrow>
   PTXStructuralElement list option \<Rightarrow> PTXStructuralElement" where
  "PTXChapter_init slugify t intro qs cs =
     PTXChapter t (slugify t) intro (or_empty qs) (or_empty cs)
       (slugify t) (slugify t @ ''.ptx'') (''ch-'' @ slugify t)"

definition PTXSection_init ::
  "(string \<Rightarrow> string) \<Rightarrow> string \<Rightarrow> string \<Rightarrow> PTXStackQuestion list option \<Rightarrow>
   PTXStructuralElement list option \<Rightarrow> PTXStructuralElement" where
  "PTXSection_init slugify t intro qs cs =
     PTXSection t (slugify t) intro (or_empty qs) (or_empty cs)
       (slugify t) (slugify t @ ''.ptx'') (''sec-'' @ slugify t)"

definition PTXSubsection_init ::
  "(string \<Rightarrow> string) \<Rightarrow> string \<Rightarrow> string \<Rightarrow> PTXStackQuestion list option \<Rightarrow>
   PTXStructuralElement list option \<Rightarrow> string option \<Rightarrow> PTXStructuralElement" where
  "PTXSubsection_init slugify t intro qs cs parent_section_slug =
     PTXSubsection t (slugify t) intro (or_empty qs) (or_empty cs)
       (slugify t) (slugify t @ ''.ptx'') (''subsec-'' @ slugify t)"

text \<open>The class attribute \<^verbatim>\<open>element_name\<close>; \<^verbatim>\<open>PTXMain\<close> does not define it.\<close>

fun element_name :: "PTXStructuralElement \<Rightarrow> string" where
  "element_name (PTXChapter _ _ _ _ _ _ _ _) = ''chapter''"
| "element_name (PTXSection _ _ _ _ _ _ _ _) = ''section''"
| "element_name (PTXSubsection _ _ _ _ _ _ _ _) = ''subsection''"

fun add_question :: "PTXStructuralElement \<Rightarrow> PTXStackQuestion \<Rightarrow> PTXStructuralElement" where
  "add_question (PTXMain t s i qs cs fo fi) question = PTXMain t s i (qs @ [question]) cs fo fi"
| "add_question (PTXChapter t s i qs cs fo fi x) question = PTXChapter t s i (qs @ [question]) cs fo fi x"
| "add_question (PTXSection t s i qs cs fo fi x) question = PTXSection t s i (qs @ [question]) cs fo fi x"
| "add_question (PTXSubsection t s i qs cs fo fi x) question = PTXSubsection t s i (qs @ [question]) cs fo fi x"

fun add_child :: "PTXStructuralElement \<Rightarrow> PTXStructuralElement \<Rightarrow> PTXStructuralElement" where
  "add_child (PTXMain t s i qs cs fo fi) child = PTXMain t s i qs (cs @ [child]) fo fi"
| "add_child (PTXChapter t s i qs cs fo fi x) child = PTXChapter t s i qs (cs @ [child]) fo fi x"
| "add_child (PTXSection t s i qs cs fo fi x) child = PTXSection t s i qs (cs @ [child]) fo fi x"
| "add_child (PTXSubsection t s i qs cs fo fi x) child = PTXSubsection t s i qs (cs @ [child]) fo fi x"

definition rel_path :: "PTXStructuralElement \<Rightarrow> string" where
  "rel_path e = path_join (foldername e) (filename e)"

definition get_include :: "PTXStructuralElement \<Rightarrow> string" where
  \<open>get_include e = ''<xi:include href="'' @ rel_path e @ ''" />''\<close>

text \<open>
  \<^verbatim>\<open>render\<close>: the override of \<^verbatim>\<open>PTXMain\<close> first, the inherited method for the other three
  classes second.
\<close>

fun render :: "(string \<Rightarrow> string \<Rightarrow> string) \<Rightarrow> PTXStructuralElement \<Rightarrow> string \<Rightarrow> string" where
  \<open>render relpath (PTXMain t s i qs cs fo fi) basepath =
     (let child_includes = str_join ''\<newline>'' (map get_include cs) in
      ''<?xml version="1.0" encoding="utf-8"?>\<newline>'' @
      ''\<newline>'' @
      ''            <pretext xml:lang="en-US" xmlns:xi="http://www.w3.org/2001/XInclude">\<newline>'' @
      ''            <!-- we first include a file which contains the docinfo element: -->\<newline>'' @
      ''            <xi:include href="./docinfo.ptx" />\<newline>'' @
      ''\<newline>'' @
      ''            <book xml:id="'' @ s @ ''">\<newline>'' @
      ''                <title>'' @ t @ ''</title>\<newline>'' @
      ''\<newline>'' @
      ''                <!-- Include frontmatter -->\<newline>'' @
      ''                <xi:include href="./frontmatter.ptx" />\<newline>'' @
      ''\<newline>'' @
      ''                <!-- Include chapters -->\<newline>'' @
      ''                '' @ child_includes @ ''\<newline>'' @
      ''                \<newline>'' @
      ''                <!-- Include backmatter -->\<newline>'' @
      ''                <xi:include href="./backmatter.ptx" />\<newline>'' @
      ''\<newline>'' @
      ''            </book>\<newline>'' @
      ''            </pretext>\<newline>'' @
      ''            '')\<close>
| \<open>render relpath e basepath =
     (let child_includes = str_join ''\<newline>'' (map get_include (children e));
          question_includes =
            str_join ''\<newline>'' (map (\<lambda>question. PTXStackQuestion_render relpath question basepath) (questions e))
      in
      ''\<newline>'' @
      ''        <'' @ element_name e @ '' xml:id="'' @ xml_id e @ ''" xmlns:xi="http://www.w3.org/2001/XInclude">\<newline>'' @
      ''            <title>'' @ title e @ ''</title>\<newline>'' @
      ''            <introduction>\<newline>'' @
      ''                '' @ introduction e @ ''\<newline>'' @
      ''                '' @ question_includes @ ''\<newline>'' @
      ''            </introduction>\<newline>'' @
      ''            '' @ child_includes @ ''\<newline>'' @
      ''        </'' @ element_name e @ ''>\<newline>'' @
      ''        '')\<close>

section \<open>The source tree\<close>

text \<open>
  The directory tree that \<^verbatim>\<open>compile_structural_element\<close> walks. A directory holds its entries
  in the order in which \<^verbatim>\<open>os.listdir\<close> returns them; a file holds what \<^verbatim>\<open>ET.parse\<close> makes of
  it (\<open>None\<close>: the parser raises). \<^verbatim>\<open>os.path.isdir\<close> is the constructor test, and the path
  \<^verbatim>\<open>os.path.join(basepath, rel_path)\<close> of a listed entry denotes that entry.
\<close>

datatype fsnode =
    File (name: string) (content: "xml option")
  | Dir (name: string) (entries: "fsnode list")

text \<open>
  Lines 171 to 175: the title of the category descriptor, when the listing has one. The
  test \<^verbatim>\<open>"gitsync_category.xml" in paths\<close> and the \<^verbatim>\<open>open\<close> that follows are the search for
  the entry of that name; opening a directory raises.
\<close>

definition category_title :: "fsnode list \<Rightarrow> string \<Rightarrow> error + string" where
  "category_title paths t =
     (case find (\<lambda>p. name p = ''gitsync_category.xml'') paths of
        None \<Rightarrow> Inr t
      | Some (Dir _ _) \<Rightarrow> Inl IsADirectoryError
      | Some (File _ None) \<Rightarrow> Inl XMLSyntaxError
      | Some (File _ (Some doc)) \<Rightarrow>
          (case xpath doc [''quiz'', ''question'', ''category'', ''text''] of
             [] \<Rightarrow> Inl IndexError
           | tg # _ \<Rightarrow>
               (case etext tg of
                  None \<Rightarrow> Inl AttributeError
                | Some s \<Rightarrow> Inr (last (str_split CHR ''/'' s)))))"

text \<open>\<^verbatim>\<open>level_map\<close>, each class applied as \<^verbatim>\<open>elem_type(title, "")\<close> applies it.\<close>

definition level_map ::
  "int \<Rightarrow> ((string \<Rightarrow> string) \<Rightarrow> string \<Rightarrow> string \<Rightarrow> PTXStructuralElement) option" where
  "level_map level =
     (if level = 0 then Some (\<lambda>slugify t intro. PTXMain_init slugify t intro None None)
      else if level = 1 then Some (\<lambda>slugify t intro. PTXChapter_init slugify t intro None None)
      else if level = 2 then Some (\<lambda>slugify t intro. PTXSection_init slugify t intro None None)
      else if level = 3 then Some (\<lambda>slugify t intro. PTXSubsection_init slugify t intro None None None)
      else None)"

text \<open>
  \<^verbatim>\<open>compile_structural_element\<close>, and its \<^verbatim>\<open>for rel_path in paths\<close> loop as
  \<open>compile_entries\<close>, which carries the element built so far (the loop variable is \<open>entry\<close>
  here). An exception of a recursive
  call or of a question's constructor leaves the loop and the call.
\<close>

function
  compile_structural_element ::
    "(string \<Rightarrow> string) \<Rightarrow> (xml \<Rightarrow> string) \<Rightarrow> string \<Rightarrow> fsnode list \<Rightarrow> string \<Rightarrow> int \<Rightarrow>
     error + PTXStructuralElement"
and
  compile_entries ::
    "(string \<Rightarrow> string) \<Rightarrow> (xml \<Rightarrow> string) \<Rightarrow> string \<Rightarrow> int \<Rightarrow> fsnode list \<Rightarrow>
     PTXStructuralElement \<Rightarrow> error + PTXStructuralElement"
where
  "compile_structural_element slugify tostring basepath paths t level =
     (case category_title paths t of
        Inl err \<Rightarrow> Inl err
      | Inr t' \<Rightarrow>
          (case level_map level of
             None \<Rightarrow> Inl KeyError
           | Some elem_type \<Rightarrow>
               compile_entries slugify tostring basepath level paths (elem_type slugify t' [])))"
| "compile_entries slugify tostring basepath level [] ptx_elem = Inr ptx_elem"
| "compile_entries slugify tostring basepath level (Dir entry sub # rest) ptx_elem =
     (if level < 3 then
        (case compile_structural_element slugify tostring (path_join basepath entry) sub
                entry (level + 1) of
           Inl err \<Rightarrow> Inl err
         | Inr child \<Rightarrow>
             compile_entries slugify tostring basepath level rest (add_child ptx_elem child))
      else compile_entries slugify tostring basepath level rest ptx_elem)"
| "compile_entries slugify tostring basepath level (File entry parsed # rest) ptx_elem =
     (if endswith entry ''.xml'' \<and> entry \<noteq> ''gitsync_category.xml'' then
        (case PTXStackQuestion_init slugify tostring (path_join basepath entry) parsed of
           Inl err \<Rightarrow> Inl err
         | Inr question \<Rightarrow>
             compile_entries slugify tostring basepath level rest (add_question ptx_elem question))
      else compile_entries slugify tostring basepath level rest ptx_elem)"
  by pat_completeness auto

termination
  by (relation "measure (\<lambda>x. case x of
          Inl (_, _, _, paths, _, _) \<Rightarrow> 2 * size_list size paths + 1
        | Inr (_, _, _, _, es, _) \<Rightarrow> 2 * size_list size es)")
     auto

section \<open>Writing the output tree\<close>

text \<open>
  The output file system, as far as \<^verbatim>\<open>make_files\<close> touches it: what a path holds. Paths are
  compared as strings, and the ancestors of a path are not tracked (a missing parent
  directory is not modelled). \<open>open_write\<close> is \<^verbatim>\<open>open(path, "w")\<close> followed by the write, which
  raises on a directory; \<open>makedirs\<close> is \<^verbatim>\<open>os.makedirs(path, exist_ok=exist_ok)\<close>, which
  accepts an existing directory when \<open>exist_ok\<close> holds and raises on an existing file.
\<close>

datatype fs_obj = RegularFile string | Directory

type_synonym out_fs = "string \<Rightarrow> fs_obj option"

definition open_write :: "out_fs \<Rightarrow> string \<Rightarrow> string \<Rightarrow> error + out_fs" where
  "open_write fs path txt =
     (case fs path of
        Some Directory \<Rightarrow> Inl IsADirectoryError
      | _ \<Rightarrow> Inr (fs(path \<mapsto> RegularFile txt)))"

definition makedirs :: "out_fs \<Rightarrow> string \<Rightarrow> bool \<Rightarrow> error + out_fs" where
  "makedirs fs path exist_ok =
     (case fs path of
        None \<Rightarrow> Inr (fs(path \<mapsto> Directory))
      | Some Directory \<Rightarrow> if exist_ok then Inr fs else Inl FileExistsError
      | Some (RegularFile _) \<Rightarrow> Inl FileExistsError)"

lemma size_children: "c \<in> set (children e) \<Longrightarrow> size c < size e"
  by (cases e) (auto simp: less_Suc_eq_le dest!: size_list_estimation'[where f = size and y = "size c"])

lemma size_list_children: "Suc (2 * size_list size (children e)) < 2 * size e"
  by (cases e) auto

text \<open>
  \<^verbatim>\<open>make_files\<close>, and its \<^verbatim>\<open>for child in self.children\<close> loop as \<open>make_files_children\<close>. An
  exception of \<^verbatim>\<open>open\<close>, of \<^verbatim>\<open>os.makedirs\<close> or of a recursive call ends the walk.
\<close>

function
  make_files ::
    "(string \<Rightarrow> string \<Rightarrow> string) \<Rightarrow> PTXStructuralElement \<Rightarrow> string \<Rightarrow> out_fs \<Rightarrow> error + out_fs"
and
  make_files_children ::
    "(string \<Rightarrow> string \<Rightarrow> string) \<Rightarrow> PTXStructuralElement list \<Rightarrow> string \<Rightarrow> out_fs \<Rightarrow> error + out_fs"
where
  "make_files relpath e basepath fs =
     (case open_write fs (path_join basepath (filename e)) (render relpath e basepath) of
        Inl err \<Rightarrow> Inl err
      | Inr fs' \<Rightarrow> make_files_children relpath (children e) basepath fs')"
| "make_files_children relpath [] basepath fs = Inr fs"
| "make_files_children relpath (child # rest) basepath fs =
     (case makedirs fs (path_join basepath (foldername child)) True of
        Inl err \<Rightarrow> Inl err
      | Inr fs' \<Rightarrow>
          (case make_files relpath child (path_join basepath (foldername child)) fs' of
             Inl err \<Rightarrow> Inl err
           | Inr fs'' \<Rightarrow> make_files_children relpath rest basepath fs''))"
  by pat_completeness auto

termination
  by (relation "measure (\<lambda>x. case x of
          Inl (_, e, _, _) \<Rightarrow> 2 * size e
        | Inr (_, cs, _, _) \<Rightarrow> 2 * size_list size cs + 1)")
     (auto simp: size_list_children)

text \<open>
  The writer as the specification words it (\<open>write_tree\<close>): the sequence of file-system
  operations, the node's own file first, then for each child in order its folder and the
  child's own sequence. \<open>run\<close> performs a sequence and stops at the first exception.
\<close>

datatype fs_op = WriteFile string string | Makedirs string

function write_tree ::
  "(string \<Rightarrow> string \<Rightarrow> string) \<Rightarrow> PTXStructuralElement \<Rightarrow> string \<Rightarrow> fs_op list" where
  "write_tree relpath node output_base_path =
     WriteFile (path_join output_base_path (filename node)) (render relpath node output_base_path) #
     concat (map (\<lambda>child.
                Makedirs (path_join output_base_path (foldername child)) #
                write_tree relpath child (path_join output_base_path (foldername child)))
              (children node))"
  by pat_completeness auto

termination
  by (relation "measure (\<lambda>(_, node, _). size node)") (auto simp: size_children)

fun perform :: "fs_op \<Rightarrow> out_fs \<Rightarrow> error + out_fs" where
  "perform (WriteFile path txt) fs = open_write fs path txt"
| "perform (Makedirs path) fs = makedirs fs path True"

fun run :: "fs_op list \<Rightarrow> out_fs \<Rightarrow> error + out_fs" where
  "run [] fs = Inr fs"
| "run (op # ops) fs = (case perform op fs of Inl err \<Rightarrow> Inl err | Inr fs' \<Rightarrow> run ops fs')"

section \<open>Measures of the two trees\<close>

text \<open>
  Depth and size of an element tree, and of a source tree: \<open>dir_depth\<close> is the nesting
  depth of the directories below a directory with the given listing, \<open>dirs_upto k\<close> the
  number of directories that lie at most \<open>k\<close> levels below it, the directory itself
  included.
\<close>

function ptx_depth :: "PTXStructuralElement \<Rightarrow> nat" where
  "ptx_depth e = fold max (map (\<lambda>c. Suc (ptx_depth c)) (children e)) 0"
  by pat_completeness auto

termination
  by (relation "measure size") (auto simp: size_children)

function ptx_count :: "PTXStructuralElement \<Rightarrow> nat" where
  "ptx_count e = Suc (sum_list (map ptx_count (children e)))"
  by pat_completeness auto

termination
  by (relation "measure size") (auto simp: size_children)

fun entry_depth :: "fsnode \<Rightarrow> nat" where
  "entry_depth (File _ _) = 0"
| "entry_depth (Dir _ sub) = Suc (fold max (map entry_depth sub) 0)"

definition dir_depth :: "fsnode list \<Rightarrow> nat" where
  "dir_depth paths = fold max (map entry_depth paths) 0"

fun entry_dirs :: "nat \<Rightarrow> fsnode \<Rightarrow> nat" where
  "entry_dirs k (File _ _) = 0"
| "entry_dirs 0 (Dir _ sub) = 0"
| "entry_dirs (Suc k) (Dir _ sub) = Suc (sum_list (map (entry_dirs k) sub))"

definition dirs_upto :: "nat \<Rightarrow> fsnode list \<Rightarrow> nat" where
  "dirs_upto k paths = Suc (sum_list (map (entry_dirs k) paths))"

section \<open>The specification's notions\<close>

text \<open>
  Modelled from the spec: how an inclusion reference is resolved. The toolchain that reads
  the output is not part of the repository; the specification has a relative reference
  resolve against the location of the file that holds it, here the directory of that file.
\<close>

definition resolve_href :: "string \<Rightarrow> string \<Rightarrow> string" where
  "resolve_href directory href = path_join directory href"

text \<open>
  The identifier of the specification, \<open>{prefix}{slug}\<close> with the prefix of the role, and
  the text that precedes the identifier attribute in a rendered element.
\<close>

fun role_prefix :: "PTXStructuralElement \<Rightarrow> string" where
  "role_prefix (PTXMain _ _ _ _ _ _ _) = []"
| "role_prefix (PTXChapter _ _ _ _ _ _ _ _) = ''ch-''"
| "role_prefix (PTXSection _ _ _ _ _ _ _ _) = ''sec-''"
| "role_prefix (PTXSubsection _ _ _ _ _ _ _ _) = ''subsec-''"

definition identifier_for :: "PTXStructuralElement \<Rightarrow> string" where
  "identifier_for e = role_prefix e @ title_slug e"

fun opening_text :: "PTXStructuralElement \<Rightarrow> string" where
  \<open>opening_text (PTXMain _ _ _ _ _ _ _) =
      ''<?xml version="1.0" encoding="utf-8"?>\<newline>'' @
      ''\<newline>'' @
      ''            <pretext xml:lang="en-US" xmlns:xi="http://www.w3.org/2001/XInclude">\<newline>'' @
      ''            <!-- we first include a file which contains the docinfo element: -->\<newline>'' @
      ''            <xi:include href="./docinfo.ptx" />\<newline>'' @
      ''\<newline>'' @
      ''            <book ''\<close>
| \<open>opening_text (PTXChapter _ _ _ _ _ _ _ _) = ''\<newline>        <chapter ''\<close>
| \<open>opening_text (PTXSection _ _ _ _ _ _ _ _) = ''\<newline>        <section ''\<close>
| \<open>opening_text (PTXSubsection _ _ _ _ _ _ _ _) = ''\<newline>        <subsection ''\<close>

text \<open>
  The elements a run can hold: made by one of the four initialisers, then grown by
  \<^verbatim>\<open>add_child\<close> and \<^verbatim>\<open>add_question\<close>. Nothing else in the program assigns an attribute.
\<close>

inductive constructed :: "(string \<Rightarrow> string) \<Rightarrow> PTXStructuralElement \<Rightarrow> bool"
  for slugify :: "string \<Rightarrow> string" where
  from_main: "constructed slugify (PTXMain_init slugify t intro qs cs)"
| from_chapter: "constructed slugify (PTXChapter_init slugify t intro qs cs)"
| from_section: "constructed slugify (PTXSection_init slugify t intro qs cs)"
| from_subsection: "constructed slugify (PTXSubsection_init slugify t intro qs cs parent)"
| from_child: "constructed slugify e \<Longrightarrow> constructed slugify (add_child e c)"
| from_question: "constructed slugify e \<Longrightarrow> constructed slugify (add_question e q)"

section \<open>Instances of the library parameters, and an example\<close>

text \<open>
  Instances of \<open>slugify\<close>, \<open>tostring\<close> and \<open>relpath\<close> on which the examples below are
  evaluated. \<open>slugify_ascii\<close> lower-cases letters, keeps digits, turns every run of other
  characters into one hyphen and strips hyphens at both ends, which is what
  \<^verbatim>\<open>python-slugify\<close> does on ASCII letters, digits, spaces, dots and slashes.
  \<open>tostring_plain\<close> writes an element without attributes. \<open>relpath_plain\<close> is
  \<^verbatim>\<open>posixpath.relpath\<close> on two paths without \<^verbatim>\<open>.\<close> and \<^verbatim>\<open>..\<close> components that are relative
  to the same working directory.
\<close>

definition slug_char :: "char \<Rightarrow> char" where
  "slug_char c =
     (let n = (of_char c :: nat) in
      if 65 \<le> n \<and> n \<le> 90 then char_of (n + 32)
      else if (97 \<le> n \<and> n \<le> 122) \<or> (48 \<le> n \<and> n \<le> 57) then c
      else CHR ''-'')"

fun squeeze :: "string \<Rightarrow> string" where
  "squeeze (a # b # cs) =
     (if a = CHR ''-'' \<and> b = CHR ''-'' then squeeze (b # cs) else a # squeeze (b # cs))"
| "squeeze cs = cs"

definition strip_hyphens :: "string \<Rightarrow> string" where
  "strip_hyphens s =
     rev (dropWhile (\<lambda>c. c = CHR ''-'') (rev (dropWhile (\<lambda>c. c = CHR ''-'') s)))"

definition slugify_ascii :: "string \<Rightarrow> string" where
  "slugify_ascii s = strip_hyphens (squeeze (map slug_char s))"

fun tostring_plain :: "xml \<Rightarrow> string" where
  "tostring_plain (Element t txt subs) =
     ''<'' @ t @ ''>'' @ (case txt of None \<Rightarrow> [] | Some s \<Rightarrow> s) @
     concat (map tostring_plain subs) @ ''</'' @ t @ ''>''"

fun common_prefix_len :: "'a list \<Rightarrow> 'a list \<Rightarrow> nat" where
  "common_prefix_len (x # xs) (y # ys) = (if x = y then Suc (common_prefix_len xs ys) else 0)"
| "common_prefix_len _ _ = 0"

definition relpath_plain :: "string \<Rightarrow> string \<Rightarrow> string" where
  "relpath_plain path start =
     (let start_list = filter (\<lambda>x. x \<noteq> []) (str_split CHR ''/'' start);
          path_list = filter (\<lambda>x. x \<noteq> []) (str_split CHR ''/'' path);
          i = common_prefix_len start_list path_list;
          rel_list = replicate (length start_list - i) ''..'' @ drop i path_list
      in if rel_list = [] then ''.'' else foldl path_join (hd rel_list) (tl rel_list))"

text \<open>
  The scenario \<^verbatim>\<open>stack/Unit1/q1.xml\<close> with the title seed \<^verbatim>\<open>Gold\<close>: the two documents, the
  listing of \<^verbatim>\<open>stack\<close>, and the elements that the build returns for it.
\<close>

definition example_quiz :: "string \<Rightarrow> xml" where
  "example_quiz t =
     Element ''quiz'' None
       [Element ''question'' None [Element ''name'' None [Element ''text'' (Some t) []]]]"

definition example_category :: "string \<Rightarrow> xml" where
  "example_category t =
     Element ''quiz'' None
       [Element ''question'' None [Element ''category'' None [Element ''text'' (Some t) []]]]"

definition example_source :: "fsnode list" where
  "example_source = [Dir ''Unit1'' [File ''q1.xml'' (Some (example_quiz ''Question One''))]]"

definition example_question :: PTXStackQuestion where
  "example_question =
     \<lparr>filepath = ''source/stack/Unit1/q1.xml'', xmlid = ''source-stack-unit1-q1-xml'',
      title_tag = ''<title>Question One</title>''\<rparr>"

definition example_chapter :: PTXStructuralElement where
  "example_chapter =
     PTXChapter ''Unit1'' ''unit1'' [] [example_question] [] ''unit1'' ''unit1.ptx'' ''ch-unit1''"

definition example_main :: PTXStructuralElement where
  "example_main = PTXMain ''Gold'' ''gold'' [] [] [example_chapter] ''.'' ''main.ptx''"

text \<open>
  Further source listings: directories nested four deep, two question files listed out of
  lexicographic order, and a directory with a category descriptor.
\<close>

definition example_deep :: "fsnode list" where
  "example_deep =
     [Dir ''a'' [Dir ''b'' [Dir ''c'' [Dir ''d'' [File ''q.xml'' (Some (example_quiz ''Deep''))]]]]]"

definition example_unsorted :: "fsnode list" where
  "example_unsorted =
     [File ''q2.xml'' (Some (example_quiz ''Two'')), File ''q1.xml'' (Some (example_quiz ''One''))]"

definition example_sales :: "fsnode list" where
  "example_sales =
     [File ''gitsync_category.xml'' (Some (example_category ''A/B/Sales'')),
      File ''q1.xml'' (Some (example_quiz ''Question One''))]"

text \<open>The output tree of the scenario, written below the existing directory \<^verbatim>\<open>source\<close>.\<close>

definition example_out :: out_fs where
  "example_out =
     [''source'' \<mapsto> Directory,
      ''source/main.ptx'' \<mapsto> RegularFile (render relpath_plain example_main ''source''),
      ''source/unit1'' \<mapsto> Directory,
      ''source/unit1/unit1.ptx'' \<mapsto> RegularFile (render relpath_plain example_chapter ''source/unit1'')]"

text \<open>
  \<^verbatim>\<open>os.path.isdir\<close> on a listed entry, the test of line 185 for a question file, and the
  name of an element's class (\<^verbatim>\<open>type(self)\<close>).
\<close>

fun isdir :: "fsnode \<Rightarrow> bool" where
  "isdir (Dir _ _) = True"
| "isdir (File _ _) = False"

definition is_question_file :: "fsnode \<Rightarrow> bool" where
  "is_question_file p =
     (\<not> isdir p \<and> endswith (name p) ''.xml'' \<and> name p \<noteq> ''gitsync_category.xml'')"

fun type_name :: "PTXStructuralElement \<Rightarrow> string" where
  "type_name (PTXMain _ _ _ _ _ _ _) = ''PTXMain''"
| "type_name (PTXChapter _ _ _ _ _ _ _ _) = ''PTXChapter''"
| "type_name (PTXSection _ _ _ _ _ _ _ _) = ''PTXSection''"
| "type_name (PTXSubsection _ _ _ _ _ _ _ _) = ''PTXSubsection''"

text \<open>
  What the specification calls a valid source tree, level by level: a question file is well
  formed when it parses and has the title node; a listing's descriptor is in order when it
  is absent, or parses and has the category node with a text; a tree is in order when this
  holds for every descriptor and question file in the directories that the walk visits.
\<close>

definition question_ok :: "xml option \<Rightarrow> bool" where
  "question_ok parsed =
     (case parsed of None \<Rightarrow> False
      | Some doc \<Rightarrow> xpath doc [''quiz'', ''question'', ''name'', ''text''] \<noteq> [])"

definition descriptor_ok :: "fsnode list \<Rightarrow> bool" where
  "descriptor_ok paths =
     (case find (\<lambda>p. name p = ''gitsync_category.xml'') paths of
        None \<Rightarrow> True
      | Some (Dir _ _) \<Rightarrow> False
      | Some (File _ None) \<Rightarrow> False
      | Some (File _ (Some doc)) \<Rightarrow>
          (case xpath doc [''quiz'', ''question'', ''category'', ''text''] of
             [] \<Rightarrow> False
           | tg # _ \<Rightarrow> etext tg \<noteq> None))"

fun entry_ok :: "int \<Rightarrow> fsnode \<Rightarrow> bool" where
  "entry_ok level (File n parsed) =
     (endswith n ''.xml'' \<and> n \<noteq> ''gitsync_category.xml'' \<longrightarrow> question_ok parsed)"
| "entry_ok level (Dir n sub) =
     (level < 3 \<longrightarrow> descriptor_ok sub \<and> (\<forall>x \<in> set sub. entry_ok (level + 1) x))"

definition tree_ok :: "int \<Rightarrow> fsnode list \<Rightarrow> bool" where
  "tree_ok level paths = (descriptor_ok paths \<and> (\<forall>x \<in> set paths. entry_ok level x))"

text \<open>
  Adjacent characters: \<open>has_pair a b xs\<close> holds when \<open>a\<close> is directly followed by \<open>b\<close>
  somewhere in \<open>xs\<close>, and \<open>pair_free a b xs\<close> when this is nowhere the case and \<open>xs\<close>
  does not end in \<open>a\<close>. A text that is pair-free for \<^verbatim>\<open><\<close> and \<^verbatim>\<open>i\<close> holds no tag that opens
  with \<^verbatim>\<open><i\<close>.
\<close>

fun has_pair :: "'a \<Rightarrow> 'a \<Rightarrow> 'a list \<Rightarrow> bool" where
  "has_pair a b (x # y # zs) = ((x = a \<and> y = b) \<or> has_pair a b (y # zs))"
| "has_pair a b _ = False"

definition pair_free :: "'a \<Rightarrow> 'a \<Rightarrow> 'a list \<Rightarrow> bool" where
  "pair_free a b xs = (\<not> has_pair a b xs \<and> (xs = [] \<or> last xs \<noteq> a))"

section \<open>Auxiliary facts\<close>

declare make_files.simps [simp del]
declare write_tree.simps [simp del]
declare ptx_depth.simps [simp del]
declare ptx_count.simps [simp del]
declare compile_structural_element.simps [simp del]
declare xpath.simps [simp del]

lemma startswith_slash: "startswith s ''/'' \<longleftrightarrow> s \<noteq> [] \<and> hd s = CHR ''/''"
  by (cases s) (auto simp: startswith_def)

lemma endswith_slash: "endswith s ''/'' \<longleftrightarrow> s \<noteq> [] \<and> last s = CHR ''/''"
  by (cases s rule: rev_cases) (auto simp: endswith_def)

lemma path_join_assoc: "path_join a (path_join b c) = path_join (path_join a b) c"
  by (auto simp: path_join_def startswith_slash endswith_slash hd_append)

lemma str_join_contains:
  "x \<in> set xs \<Longrightarrow> \<exists>pre post. str_join sep xs = pre @ x @ post"
proof (induction sep xs rule: str_join.induct)
  case (1 sep)
  then show ?case by simp
next
  case (2 sep y)
  then have "str_join sep [y] = [] @ x @ []" by simp
  then show ?case by blast
next
  case (3 sep y z zs)
  show ?case
  proof (cases "x = y")
    case True
    then have "str_join sep (y # z # zs) = [] @ x @ (sep @ str_join sep (z # zs))" by simp
    then show ?thesis by blast
  next
    case False
    with 3 obtain pre post where "str_join sep (z # zs) = pre @ x @ post" by auto
    then have "str_join sep (y # z # zs) = (y @ sep @ pre) @ x @ post" by simp
    then show ?thesis by blast
  qed
qed

lemma run_append:
  "run (xs @ ys) fs = (case run xs fs of Inl err \<Rightarrow> Inl err | Inr fs' \<Rightarrow> run ys fs')"
  by (induction xs arbitrary: fs) (auto split: sum.splits)

lemma make_files_run_aux:
  "make_files relpath e basepath fs = run (write_tree relpath e basepath) fs"
  "make_files_children relpath cs basepath fs =
     run (concat (map (\<lambda>child. Makedirs (path_join basepath (foldername child)) #
                        write_tree relpath child (path_join basepath (foldername child))) cs)) fs"
proof (induction relpath e basepath fs and relpath cs basepath fs
       rule: make_files_make_files_children.induct)
  case (1 relpath e basepath fs)
  show ?case
    by (subst make_files.simps, subst write_tree.simps) (simp add: 1 split: sum.splits)
next
  case (2 relpath basepath fs)
  show ?case by simp
next
  case (3 relpath child rest basepath fs)
  show ?case
    by (simp add: run_append 3 split: sum.splits)
qed

lemma ex_mid_append: "\<exists>A B. y = A @ m @ B \<Longrightarrow> \<exists>A B. x @ y = A @ m @ (B::'a list)"
  by (metis append.assoc)

lemma ex_mid_here: "\<exists>A B. m @ y = A @ m @ (B::'a list)"
  by (metis append_Nil)

lemma render_child_includes:
  "\<exists>A B. render relpath n basepath = A @ str_join ''\<newline>'' (map get_include (children n)) @ B"
proof (cases n)
  case PTXMain
  show ?thesis
    unfolding PTXMain render.simps Let_def PTXStructuralElement.sel
    by (intro ex_mid_here ex_mid_append)
next
  case PTXChapter
  show ?thesis
    unfolding PTXChapter render.simps Let_def PTXStructuralElement.sel
    by (intro ex_mid_here ex_mid_append)
next
  case PTXSection
  show ?thesis
    unfolding PTXSection render.simps Let_def PTXStructuralElement.sel
    by (intro ex_mid_here ex_mid_append)
next
  case PTXSubsection
  show ?thesis
    unfolding PTXSubsection render.simps Let_def PTXStructuralElement.sel
    by (intro ex_mid_here ex_mid_append)
qed

lemma render_contains_include:
  assumes "c \<in> set (children n)"
  shows "\<exists>pre post. render relpath n basepath = pre @ get_include c @ post"
proof -
  from assms have "get_include c \<in> set (map get_include (children n))" by simp
  then obtain pre post
    where j: "str_join ''\<newline>'' (map get_include (children n)) = pre @ get_include c @ post"
    using str_join_contains by blast
  obtain A B
    where "render relpath n basepath = A @ str_join ''\<newline>'' (map get_include (children n)) @ B"
    using render_child_includes by blast
  then have "render relpath n basepath = (A @ pre) @ get_include c @ (post @ B)"
    by (simp add: j)
  then show ?thesis by blast
qed

lemma hd_write_tree:
  "hd (write_tree relpath n basepath) =
     WriteFile (path_join basepath (filename n)) (render relpath n basepath)"
  by (subst write_tree.simps) simp

lemma child_write_in_tree:
  assumes "c \<in> set (children n)"
  shows "WriteFile (path_join basepath (rel_path c)) (render relpath c (path_join basepath (foldername c)))
           \<in> set (write_tree relpath n basepath)"
proof -
  have "WriteFile (path_join (path_join basepath (foldername c)) (filename c))
          (render relpath c (path_join basepath (foldername c)))
        \<in> set (write_tree relpath c (path_join basepath (foldername c)))"
    by (subst write_tree.simps) simp
  with assms show ?thesis
    by (subst write_tree.simps) (auto simp: rel_path_def path_join_assoc)
qed

lemma add_child_sel [simp]:
  "children (add_child e c) = children e @ [c]"
  "questions (add_child e c) = questions e"
  "title (add_child e c) = title e"
  "title_slug (add_child e c) = title_slug e"
  "introduction (add_child e c) = introduction e"
  "foldername (add_child e c) = foldername e"
  "filename (add_child e c) = filename e"
  "type_name (add_child e c) = type_name e"
  by (cases e; simp)+

lemma add_question_sel [simp]:
  "children (add_question e q) = children e"
  "questions (add_question e q) = questions e @ [q]"
  "title (add_question e q) = title e"
  "title_slug (add_question e q) = title_slug e"
  "introduction (add_question e q) = introduction e"
  "foldername (add_question e q) = foldername e"
  "filename (add_question e q) = filename e"
  "type_name (add_question e q) = type_name e"
  by (cases e; simp)+

lemma compile_entries_char:
  "compile_entries slugify tostring basepath level es acc = Inr e \<Longrightarrow>
     type_name e = type_name acc \<and> title e = title acc \<and> title_slug e = title_slug acc \<and>
     introduction e = introduction acc \<and> foldername e = foldername acc \<and>
     filename e = filename acc \<and>
     map Inr (questions e) =
       map Inr (questions acc) @
       map (\<lambda>f. PTXStackQuestion_init slugify tostring (path_join basepath (name f)) (content f))
         (filter is_question_file es) \<and>
     map Inr (children e) =
       map Inr (children acc) @
       (if level < 3 then
          map (\<lambda>d. compile_structural_element slugify tostring (path_join basepath (name d))
                     (entries d) (name d) (level + 1))
            (filter isdir es)
        else [])"
proof (induction es arbitrary: acc)
  case Nil
  then show ?case by simp
next
  case (Cons x es)
  show ?case
  proof (cases x)
    case (File n parsed)
    show ?thesis
    proof (cases "endswith n ''.xml'' \<and> n \<noteq> ''gitsync_category.xml''")
      case True
      with Cons.prems File obtain q where
        q: "PTXStackQuestion_init slugify tostring (path_join basepath n) parsed = Inr q"
        and r: "compile_entries slugify tostring basepath level es (add_question acc q) = Inr e"
        by (auto split: sum.splits)
      from Cons.IH[OF r] True q show ?thesis
        by (simp add: File is_question_file_def)
    next
      case False
      with Cons.prems File have r: "compile_entries slugify tostring basepath level es acc = Inr e"
        by auto
      from Cons.IH[OF r] False show ?thesis
        by (simp add: File is_question_file_def)
    qed
  next
    case (Dir n sub)
    show ?thesis
    proof (cases "level < 3")
      case True
      with Cons.prems Dir obtain c where
        c: "compile_structural_element slugify tostring (path_join basepath n) sub n (level + 1) = Inr c"
        and r: "compile_entries slugify tostring basepath level es (add_child acc c) = Inr e"
        by (auto split: sum.splits)
      from Cons.IH[OF r] True c show ?thesis
        by (simp add: Dir is_question_file_def)
    next
      case False
      with Cons.prems Dir have r: "compile_entries slugify tostring basepath level es acc = Inr e"
        by auto
      from Cons.IH[OF r] False show ?thesis
        by (simp add: Dir is_question_file_def)
    qed
  qed
qed

lemma question_init_ok:
  "(\<exists>q. PTXStackQuestion_init slugify tostring path parsed = Inr q) \<longleftrightarrow> question_ok parsed"
  by (auto simp: PTXStackQuestion_init_def question_ok_def split: option.splits list.splits)

lemma category_title_ok:
  "(\<exists>t'. category_title paths t = Inr t') \<longleftrightarrow> descriptor_ok paths"
  by (auto simp: category_title_def descriptor_ok_def
           split: option.splits list.splits fsnode.splits)

lemma compile_entries_succeeds:
  "(\<exists>e. compile_entries slugify tostring basepath level es acc = Inr e) \<longleftrightarrow>
     (\<forall>x \<in> set es.
        (is_question_file x \<longrightarrow> question_ok (content x)) \<and>
        (isdir x \<and> level < 3 \<longrightarrow>
           (\<exists>c. compile_structural_element slugify tostring (path_join basepath (name x))
                   (entries x) (name x) (level + 1) = Inr c)))"
proof (induction es arbitrary: acc)
  case Nil
  then show ?case by simp
next
  case (Cons x es)
  show ?case
  proof (cases x)
    case (File n parsed)
    show ?thesis
      using Cons.IH question_init_ok[of slugify tostring "path_join basepath n" parsed]
      by (auto simp: File is_question_file_def split: sum.splits)
  next
    case (Dir n sub)
    show ?thesis
      using Cons.IH
      by (auto simp: Dir is_question_file_def split: sum.splits)
  qed
qed

lemma level_map_Some:
  "0 \<le> level \<Longrightarrow> level \<le> 3 \<Longrightarrow> \<exists>ctor. level_map level = Some ctor"
  by (auto simp: level_map_def)

lemma compile_unfold:
  assumes "compile_structural_element slugify tostring basepath paths t level = Inr e"
  shows "\<exists>t' ctor. category_title paths t = Inr t' \<and> level_map level = Some ctor \<and>
           compile_entries slugify tostring basepath level paths (ctor slugify t' []) = Inr e"
  using assms
  by (subst (asm) compile_structural_element.simps) (auto split: sum.splits option.splits)

lemma level_map_fresh:
  assumes "level_map level = Some ctor"
  shows "children (ctor slugify t []) = [] \<and> questions (ctor slugify t []) = [] \<and>
         title (ctor slugify t []) = t \<and> title_slug (ctor slugify t []) = slugify t"
  using assms
  by (auto simp: level_map_def PTXMain_init_def PTXChapter_init_def PTXSection_init_def
        PTXSubsection_init_def or_empty_def split: if_splits)

lemma build_succeeds_aux:
  "\<forall>basepath t level. 0 \<le> level \<longrightarrow> level \<le> 3 \<longrightarrow> isdir d \<longrightarrow>
     ((\<exists>e. compile_structural_element slugify tostring basepath (entries d) t level = Inr e)
        \<longleftrightarrow> tree_ok level (entries d))"
proof (induction d)
  case (File n parsed)
  show ?case by simp
next
  case (Dir n sub)
  show ?case
  proof (intro allI impI)
    fix basepath t and level :: int
    assume lv: "0 \<le> level" "level \<le> 3"
    from level_map_Some[OF lv] obtain ctor where ctor: "level_map level = Some ctor" by blast
    have sub_ok: "(\<exists>c. compile_structural_element slugify tostring (path_join basepath (name x))
                   (entries x) (name x) (level + 1) = Inr c) \<longleftrightarrow> tree_ok (level + 1) (entries x)"
      if "x \<in> set sub" "isdir x" "level < 3" for x
      using Dir.IH[OF that(1)] that(2,3) lv by simp
    have entry: "((is_question_file x \<longrightarrow> question_ok (content x)) \<and>
        (isdir x \<and> level < 3 \<longrightarrow>
           (\<exists>c. compile_structural_element slugify tostring (path_join basepath (name x))
                   (entries x) (name x) (level + 1) = Inr c))) \<longleftrightarrow> entry_ok level x"
      if "x \<in> set sub" for x
    proof (cases x)
      case (File m p)
      then show ?thesis by (simp add: is_question_file_def)
    next
      case d: (Dir m s)
      show ?thesis
      proof (cases "level < 3")
        case True
        with sub_ok[OF that] d show ?thesis
          by (simp add: is_question_file_def tree_ok_def)
      next
        case False
        with d show ?thesis by (simp add: is_question_file_def)
      qed
    qed
    have "(\<exists>e. compile_structural_element slugify tostring basepath sub t level = Inr e) \<longleftrightarrow>
          (\<exists>t'. category_title sub t = Inr t' \<and>
             (\<exists>e. compile_entries slugify tostring basepath level sub (ctor slugify t' []) = Inr e))"
      by (subst compile_structural_element.simps) (auto simp: ctor split: sum.splits)
    also have "\<dots> \<longleftrightarrow> descriptor_ok sub \<and> (\<forall>x \<in> set sub. entry_ok level x)"
      using entry category_title_ok[of sub t]
      by (auto simp: compile_entries_succeeds)
    finally show "(\<exists>e. compile_structural_element slugify tostring basepath (entries (Dir n sub)) t level = Inr e)
        \<longleftrightarrow> tree_ok level (entries (Dir n sub))"
      by (simp add: tree_ok_def)
  qed
qed

lemma build_succeeds_iff:
  assumes "0 \<le> level" "level \<le> 3"
  shows "(\<exists>e. compile_structural_element slugify tostring basepath paths t level = Inr e)
           \<longleftrightarrow> tree_ok level paths"
  using build_succeeds_aux[of "Dir [] paths" slugify tostring] assms by simp

lemma constructed_fields:
  "constructed slugify e \<Longrightarrow>
     title_slug e = slugify (title e) \<and>
     (case e of PTXMain _ _ _ _ _ _ _ \<Rightarrow> True
      | _ \<Rightarrow> xml_id e = role_prefix e @ title_slug e)"
proof (induction rule: constructed.induct)
  case (from_child e c)
  then show ?case by (cases e) auto
next
  case (from_question e q)
  then show ?case by (cases e) auto
qed (simp_all add: PTXMain_init_def PTXChapter_init_def PTXSection_init_def PTXSubsection_init_def)

lemma map_get_include:
  \<open>map get_include cs = map (\<lambda>r. ''<xi:include href="'' @ r @ ''" />'') (map rel_path cs)\<close>
  by (simp add: get_include_def)

lemma run_keeps_dir:
  "run ops fs = Inr fs' \<Longrightarrow> fs p = Some Directory \<Longrightarrow> fs' p = Some Directory"
proof (induction ops arbitrary: fs)
  case Nil
  then show ?case by simp
next
  case (Cons a ops)
  then obtain fs1 where p: "perform a fs = Inr fs1" and r: "run ops fs1 = Inr fs'"
    by (auto split: sum.splits)
  from p Cons.prems(2) have "fs1 p = Some Directory"
    by (cases a) (auto simp: open_write_def makedirs_def split: option.splits fs_obj.splits if_splits)
  with Cons.IH[OF r] show ?case by simp
qed

lemma run_keeps_file:
  "run ops fs = Inr fs' \<Longrightarrow> fs p = Some (RegularFile body) \<Longrightarrow> \<exists>body'. fs' p = Some (RegularFile body')"
proof (induction ops arbitrary: fs body)
  case Nil
  then show ?case by simp
next
  case (Cons a ops)
  then obtain fs1 where p: "perform a fs = Inr fs1" and r: "run ops fs1 = Inr fs'"
    by (auto split: sum.splits)
  from p Cons.prems(2) have "\<exists>body1. fs1 p = Some (RegularFile body1)"
    by (cases a) (auto simp: open_write_def makedirs_def split: option.splits fs_obj.splits if_splits)
  with Cons.IH[OF r] show ?case by blast
qed

lemma run_again:
  "run ops fs = Inr fs' \<Longrightarrow> (\<forall>p. g p = fs p \<or> g p = fs' p) \<Longrightarrow> run ops g = Inr fs'"
proof (induction ops arbitrary: fs g)
  case Nil
  then have "g = fs" by auto
  with Nil show ?case by simp
next
  case (Cons a ops)
  then obtain fs1 where p: "perform a fs = Inr fs1" and r: "run ops fs1 = Inr fs'"
    by (auto split: sum.splits)
  have "\<exists>g1. perform a g = Inr g1 \<and> (\<forall>q. g1 q = fs1 q \<or> g1 q = fs' q)"
  proof (cases a)
    case (WriteFile path body)
    with p have nd: "fs path \<noteq> Some Directory" and fs1: "fs1 = fs(path \<mapsto> RegularFile body)"
      by (auto simp: open_write_def split: option.splits fs_obj.splits)
    from fs1 run_keeps_file[OF r, of path body] obtain body' where "fs' path = Some (RegularFile body')"
      by auto
    with nd Cons.prems(2) have "g path \<noteq> Some Directory"
      by (metis fs_obj.distinct(1) option.inject)
    then have "perform a g = Inr (g(path \<mapsto> RegularFile body))"
      by (auto simp: WriteFile open_write_def split: option.splits fs_obj.splits)
    moreover have "\<forall>q. (g(path \<mapsto> RegularFile body)) q = fs1 q \<or> (g(path \<mapsto> RegularFile body)) q = fs' q"
      using Cons.prems(2) fs1 by auto
    ultimately show ?thesis by blast
  next
    case (Makedirs path)
    with p have nf: "fs path = None \<or> fs path = Some Directory"
      and fs1: "fs1 = fs(path \<mapsto> Directory)"
      by (auto simp: makedirs_def split: option.splits fs_obj.splits if_splits)
    from fs1 run_keeps_dir[OF r, of path] have "fs' path = Some Directory"
      by auto
    with nf Cons.prems(2) have g: "g path = None \<or> g path = Some Directory"
      by metis
    then have "perform a g = Inr (g(path \<mapsto> Directory))"
      by (auto simp: Makedirs makedirs_def split: option.splits fs_obj.splits)
    moreover have "\<forall>q. (g(path \<mapsto> Directory)) q = fs1 q \<or> (g(path \<mapsto> Directory)) q = fs' q"
      using Cons.prems(2) fs1 by auto
    ultimately show ?thesis by blast
  qed
  then obtain g1 where g1: "perform a g = Inr g1" and inv: "\<forall>q. g1 q = fs1 q \<or> g1 q = fs' q"
    by blast
  from Cons.IH[OF r inv] g1 show ?case by simp
qed

lemma example_write_tree:
  "write_tree relpath_plain example_main ''source'' =
     [WriteFile ''source/main.ptx'' (render relpath_plain example_main ''source''),
      Makedirs ''source/unit1'',
      WriteFile ''source/unit1/unit1.ptx'' (render relpath_plain example_chapter ''source/unit1'')]"
proof -
  have p0: "path_join ''source'' ''main.ptx'' = ''source/main.ptx''" by code_simp
  have p1: "path_join ''source'' ''unit1'' = ''source/unit1''" by code_simp
  have p2: "path_join ''source/unit1'' ''unit1.ptx'' = ''source/unit1/unit1.ptx''" by code_simp
  have c: "write_tree relpath_plain example_chapter ''source/unit1'' =
     [WriteFile ''source/unit1/unit1.ptx'' (render relpath_plain example_chapter ''source/unit1'')]"
    by (subst write_tree.simps) (simp add: example_chapter_def p2)
  have f: "foldername example_chapter = ''unit1''" by (simp add: example_chapter_def)
  show ?thesis
    by (subst write_tree.simps) (simp add: example_main_def p0 p1 c f)
qed

lemma example_run:
  "run (write_tree relpath_plain example_main ''source'') [''source'' \<mapsto> Directory] = Inr example_out"
  unfolding example_write_tree
  by (simp add: open_write_def makedirs_def example_out_def)

lemma str_split_not_Nil [simp]: "str_split sep s \<noteq> []"
  by (induction s) (auto split: list.splits)

lemma str_split_no_sep: "sep \<notin> set s \<Longrightarrow> str_split sep s = [s]"
  by (induction s) auto

lemma str_split_at_sep: "sep \<notin> set a \<Longrightarrow> str_split sep (a @ sep # b) = a # str_split sep b"
  by (induction a) auto

lemma last_str_split:
  "sep \<notin> set (last (str_split sep s)) \<and>
   (\<exists>pre. s = pre @ last (str_split sep s) \<and> (pre = [] \<or> last pre = sep))"
proof (induction s rule: length_induct)
  case (1 s)
  show ?case
  proof (cases "sep \<in> set s")
    case False
    then show ?thesis by (simp add: str_split_no_sep)
  next
    case True
    then obtain a b where s: "s = a @ sep # b" and a: "sep \<notin> set a"
      by (meson split_list_first)
    then have l: "last (str_split sep s) = last (str_split sep b)"
      by (simp add: str_split_at_sep)
    have "length b < length s" using s by simp
    with 1 have n: "sep \<notin> set (last (str_split sep b))"
      and "\<exists>pre. b = pre @ last (str_split sep b) \<and> (pre = [] \<or> last pre = sep)"
      by blast+
    then obtain pre where b: "b = pre @ last (str_split sep b)" and p: "pre = [] \<or> last pre = sep"
      by blast
    have "s = (a @ sep # pre) @ last (str_split sep s)"
      using s b l by simp
    moreover have "last (a @ sep # pre) = sep"
      using p by auto
    ultimately show ?thesis using n l by (metis append_is_Nil_conv list.distinct(1))
  qed
qed

lemma category_title_found:
  assumes "find (\<lambda>p. name p = ''gitsync_category.xml'') paths = Some (File n (Some doc))"
    and "xpath doc [''quiz'', ''question'', ''category'', ''text''] = tg # tgs"
    and "etext tg = Some s"
  shows "category_title paths t = Inr (last (str_split CHR ''/'' s))"
  using assms by (simp add: category_title_def)

lemma compile_title:
  assumes "compile_structural_element slugify tostring basepath paths t level = Inr e"
    and "category_title paths t = Inr t'"
  shows "title e = t' \<and> title_slug e = slugify t'"
proof -
  from compile_unfold[OF assms(1)] assms(2) obtain ctor
    where c: "level_map level = Some ctor"
      and r: "compile_entries slugify tostring basepath level paths (ctor slugify t' []) = Inr e"
    by auto
  from compile_entries_char[OF r] level_map_fresh[OF c, of slugify t'] show ?thesis by simp
qed

lemma compile_lists:
  assumes "compile_structural_element slugify tostring basepath paths t level = Inr e"
  shows "map Inr (questions e) =
           map (\<lambda>f. PTXStackQuestion_init slugify tostring (path_join basepath (name f)) (content f))
             (filter is_question_file paths)"
    and "map Inr (children e) =
           (if level < 3 then
              map (\<lambda>d. compile_structural_element slugify tostring (path_join basepath (name d))
                         (entries d) (name d) (level + 1))
                (filter isdir paths)
            else [])"
    and "type_name e = (if level = 0 then ''PTXMain'' else if level = 1 then ''PTXChapter''
                        else if level = 2 then ''PTXSection'' else ''PTXSubsection'')"
proof -
  from compile_unfold[OF assms] obtain t' ctor
    where c: "level_map level = Some ctor"
      and r: "compile_entries slugify tostring basepath level paths (ctor slugify t' []) = Inr e"
    by auto
  note ch = compile_entries_char[OF r] and fr = level_map_fresh[OF c, of slugify t']
  show "map Inr (questions e) =
           map (\<lambda>f. PTXStackQuestion_init slugify tostring (path_join basepath (name f)) (content f))
             (filter is_question_file paths)"
    using ch fr by simp
  show "map Inr (children e) =
           (if level < 3 then
              map (\<lambda>d. compile_structural_element slugify tostring (path_join basepath (name d))
                         (entries d) (name d) (level + 1))
                (filter isdir paths)
            else [])"
    using ch fr by simp
  have "type_name (ctor slugify t' []) = (if level = 0 then ''PTXMain'' else if level = 1 then ''PTXChapter''
                        else if level = 2 then ''PTXSection'' else ''PTXSubsection'')"
    using c
    by (auto simp: level_map_def PTXMain_init_def PTXChapter_init_def PTXSection_init_def
        PTXSubsection_init_def split: if_splits)
  with ch show "type_name e = (if level = 0 then ''PTXMain'' else if level = 1 then ''PTXChapter''
                        else if level = 2 then ''PTXSection'' else ''PTXSubsection'')"
    by simp
qed

lemma map_Inr_list_all2:
  "map Inr cs = map g ds \<Longrightarrow> list_all2 (\<lambda>c d. g d = Inr c) cs ds"
proof (induction cs arbitrary: ds)
  case Nil
  then show ?case by simp
next
  case (Cons c cs)
  then show ?case by (cases ds) auto
qed

lemma question_init_filepath:
  "PTXStackQuestion_init slugify tostring path parsed = Inr q \<Longrightarrow> filepath q = path"
  by (auto simp: PTXStackQuestion_init_def split: option.splits list.splits)

lemma list_all2_map_eq:
  "list_all2 (\<lambda>c d. f c = h d) cs ds \<Longrightarrow> map f cs = map h ds"
  by (induction rule: list_all2_induct) auto

lemma fold_max_acc: "fold max xs (a::nat) = max a (fold max xs 0)"
proof (induction xs arbitrary: a)
  case Nil
  show ?case by simp
next
  case (Cons x xs)
  have "fold max (x # xs) a = max (max x a) (fold max xs 0)"
    using Cons[of "max x a"] by simp
  also have "\<dots> = max a (max x (fold max xs 0))"
    by (simp add: max.assoc max.left_commute max.commute)
  also have "\<dots> = max a (fold max (x # xs) 0)"
    using Cons[of x] by simp
  finally show ?case .
qed

lemma fold_max_Cons: "fold max (x # xs) (0::nat) = max x (fold max xs 0)"
  using fold_max_acc[of xs x] by simp

lemma entry_dirs_0 [simp]: "entry_dirs 0 x = 0"
  by (cases x) auto

lemma entry_depth_Dir: "isdir d \<Longrightarrow> entry_depth d = Suc (dir_depth (entries d))"
  by (cases d) (auto simp: dir_depth_def)

lemma entry_dirs_Dir: "isdir d \<Longrightarrow> entry_dirs (Suc k) d = dirs_upto k (entries d)"
  by (cases d) (auto simp: dirs_upto_def)

lemma depth_filter_isdir:
  "fold max (map entry_depth (filter isdir es)) 0 = fold max (map entry_depth es) 0"
proof (induction es)
  case Nil
  show ?case by simp
next
  case (Cons x es)
  show ?case
  proof (cases x)
    case (File n p)
    have "fold max (map entry_depth (x # es)) 0 = max 0 (fold max (map entry_depth es) 0)"
      unfolding list.map fold_max_Cons by (simp add: File)
    with Cons File show ?thesis by simp
  next
    case (Dir n sub)
    have "fold max (map entry_depth (filter isdir (x # es))) 0 =
          max (entry_depth x) (fold max (map entry_depth (filter isdir es)) 0)"
      using fold_max_Cons[of "entry_depth x" "map entry_depth (filter isdir es)"] by (simp add: Dir)
    also have "\<dots> = fold max (map entry_depth (x # es)) 0"
      unfolding list.map fold_max_Cons by (simp only: Cons)
    finally show ?thesis .
  qed
qed

lemma dirs_filter_isdir:
  "sum_list (map (entry_dirs k) (filter isdir es)) = sum_list (map (entry_dirs k) es)"
proof (induction es)
  case Nil
  show ?case by simp
next
  case (Cons x es)
  then show ?case by (cases x) auto
qed

lemma depth_rel:
  "list_all2 (\<lambda>c d. isdir d \<and> ptx_depth c = min (dir_depth (entries d)) k) cs ds \<Longrightarrow>
   fold max (map (\<lambda>c. Suc (ptx_depth c)) cs) 0 = min (fold max (map entry_depth ds) 0) (Suc k)"
proof (induction rule: list_all2_induct)
  case Nil
  show ?case by simp
next
  case (Cons c cs d ds)
  have "fold max (map (\<lambda>c. Suc (ptx_depth c)) (c # cs)) 0 =
        max (Suc (ptx_depth c)) (fold max (map (\<lambda>c. Suc (ptx_depth c)) cs) 0)"
    unfolding list.map fold_max_Cons ..
  also have "\<dots> = max (Suc (min (dir_depth (entries d)) k)) (min (fold max (map entry_depth ds) 0) (Suc k))"
    using Cons by simp
  also have "\<dots> = min (max (entry_depth d) (fold max (map entry_depth ds) 0)) (Suc k)"
    using Cons(1) by (simp add: entry_depth_Dir)
  also have "\<dots> = min (fold max (map entry_depth (d # ds)) 0) (Suc k)"
    unfolding list.map fold_max_Cons ..
  finally show ?case .
qed

lemma count_rel:
  "list_all2 (\<lambda>c d. isdir d \<and> ptx_count c = dirs_upto k (entries d)) cs ds \<Longrightarrow>
   sum_list (map ptx_count cs) = sum_list (map (entry_dirs (Suc k)) ds)"
  by (induction rule: list_all2_induct) (auto simp: entry_dirs_Dir)

lemma build_measures_aux:
  "\<forall>basepath t level e. 0 \<le> level \<longrightarrow> level \<le> 3 \<longrightarrow> isdir d \<longrightarrow>
     compile_structural_element slugify tostring basepath (entries d) t level = Inr e \<longrightarrow>
       ptx_depth e = min (dir_depth (entries d)) (nat (3 - level)) \<and>
       ptx_count e = dirs_upto (nat (3 - level)) (entries d)"
proof (induction d)
  case (File n parsed)
  show ?case by simp
next
  case (Dir n sub)
  show ?case
  proof (intro allI impI)
    fix basepath t e and level :: int
    assume lv: "0 \<le> level" "level \<le> 3"
      and c: "compile_structural_element slugify tostring basepath (entries (Dir n sub)) t level = Inr e"
    from c have c': "compile_structural_element slugify tostring basepath sub t level = Inr e"
      by simp
    note ch = compile_lists(2)[OF c']
    show "ptx_depth e = min (dir_depth (entries (Dir n sub))) (nat (3 - level)) \<and>
          ptx_count e = dirs_upto (nat (3 - level)) (entries (Dir n sub))"
    proof (cases "level < 3")
      case False
      with lv have l3: "level = 3" by simp
      with ch have ce: "children e = []" by simp
      have "ptx_depth e = 0"
        by (subst ptx_depth.simps) (simp add: ce)
      moreover have "ptx_count e = 1"
        by (subst ptx_count.simps) (simp add: ce)
      ultimately show ?thesis by (simp add: l3 dirs_upto_def)
    next
      case True
      define k where "k = nat (3 - (level + 1))"
      with True lv have k: "nat (3 - level) = Suc k" by simp
      from ch True have "map Inr (children e) =
          map (\<lambda>d. compile_structural_element slugify tostring (path_join basepath (name d))
                         (entries d) (name d) (level + 1)) (filter isdir sub)"
        by simp
      then have
        "list_all2 (\<lambda>c d. compile_structural_element slugify tostring (path_join basepath (name d))
                         (entries d) (name d) (level + 1) = Inr c) (children e) (filter isdir sub)"
        by (rule map_Inr_list_all2)
      then have rel: "list_all2 (\<lambda>c d. isdir d \<and> ptx_depth c = min (dir_depth (entries d)) k \<and>
                       ptx_count c = dirs_upto k (entries d)) (children e) (filter isdir sub)"
      proof (rule list.rel_mono_strong)
        fix c d
        assume "d \<in> set (filter isdir sub)"
          and cd: "compile_structural_element slugify tostring (path_join basepath (name d))
                         (entries d) (name d) (level + 1) = Inr c"
        then have d: "d \<in> set sub" "isdir d" by simp_all
        have "0 \<le> level + 1" "level + 1 \<le> 3" using True lv by simp_all
        from Dir.IH[OF d(1), rule_format, OF this d(2) cd] d(2)
        show "isdir d \<and> ptx_depth c = min (dir_depth (entries d)) k \<and>
                       ptx_count c = dirs_upto k (entries d)"
          by (simp add: k_def)
      qed
      have "ptx_depth e = fold max (map (\<lambda>c. Suc (ptx_depth c)) (children e)) 0"
        by (subst ptx_depth.simps) simp
      also have "\<dots> = min (fold max (map entry_depth (filter isdir sub)) 0) (Suc k)"
        by (rule depth_rel) (rule list_all2_mono[OF rel], simp)
      finally have dep: "ptx_depth e = min (dir_depth sub) (Suc k)"
        by (simp add: depth_filter_isdir dir_depth_def)
      have "ptx_count e = Suc (sum_list (map ptx_count (children e)))"
        by (subst ptx_count.simps) simp
      also have "sum_list (map ptx_count (children e)) = sum_list (map (entry_dirs (Suc k)) (filter isdir sub))"
        by (rule count_rel) (rule list_all2_mono[OF rel], simp)
      finally have cnt: "ptx_count e = dirs_upto (Suc k) sub"
        by (simp add: dirs_filter_isdir dirs_upto_def)
      from dep cnt show ?thesis by (simp add: k)
    qed
  qed
qed

lemma has_pair_append:
  "has_pair a b (xs @ ys) \<Longrightarrow> has_pair a b xs \<or> has_pair a b ys \<or> (xs \<noteq> [] \<and> last xs = a)"
proof (induction xs rule: induct_list012)
  case 1
  then show ?case by simp
next
  case (2 x)
  then show ?case by (cases ys) auto
next
  case (3 x y zs)
  then show ?case by auto
qed

lemma pair_free_append:
  assumes "pair_free a b xs" and "pair_free a b ys"
  shows "pair_free a b (xs @ ys)"
proof -
  have "\<not> has_pair a b (xs @ ys)"
    using has_pair_append[of a b xs ys] assms by (auto simp: pair_free_def)
  moreover have "xs @ ys = [] \<or> last (xs @ ys) \<noteq> a"
    using assms by (cases "ys = []") (auto simp: pair_free_def)
  ultimately show ?thesis by (simp add: pair_free_def)
qed

lemma has_pair_mem: "has_pair a b xs \<Longrightarrow> a \<in> set xs"
  by (induction xs rule: induct_list012) auto

lemma pair_free_notin: "a \<notin> set xs \<Longrightarrow> pair_free a b xs"
  unfolding pair_free_def using has_pair_mem[of a b xs] by (cases xs rule: rev_cases) auto

lemma pair_free_str_join:
  "pair_free a b sep \<Longrightarrow> (\<forall>x \<in> set xs. pair_free a b x) \<Longrightarrow> pair_free a b (str_join sep xs)"
proof (induction sep xs rule: str_join.induct)
  case (1 sep)
  then show ?case by (simp add: pair_free_def)
next
  case (2 sep x)
  then show ?case by simp
next
  case (3 sep x y ys)
  then show ?case by (simp add: pair_free_append)
qed

lemma has_pair_occurs: "has_pair a b (pre @ a # b # post)"
  by (induction pre rule: induct_list012) auto

lemma pair_free_get_include:
  assumes "CHR ''<'' \<notin> set (rel_path c)" and "b \<noteq> CHR ''x''"
  shows "pair_free CHR ''<'' b (get_include c)"
  unfolding get_include_def
  by (intro pair_free_append pair_free_notin[OF assms(1)])
     (simp_all add: pair_free_def assms(2) assms(2)[symmetric])

lemma root_pair_free:
  assumes "b \<notin> set ''?p!xbt/''"
    and "CHR ''<'' \<notin> set s" and "CHR ''<'' \<notin> set ti"
    and "\<forall>c \<in> set cs. CHR ''<'' \<notin> set (rel_path c)"
  shows "pair_free CHR ''<'' b (render relpath (PTXMain ti s i qs cs fo fi) out)"
proof -
  from assms(1) have b: "b \<noteq> CHR ''?''" "b \<noteq> CHR ''p''" "b \<noteq> CHR ''!''" "b \<noteq> CHR ''x''"
    "b \<noteq> CHR ''b''" "b \<noteq> CHR ''t''" "b \<noteq> CHR ''/''"
    by simp_all
  have j: "pair_free CHR ''<'' b (str_join ''\<newline>'' (map get_include cs))"
  proof (rule pair_free_str_join)
    show "pair_free CHR ''<'' b ''\<newline>''"
      by (simp add: pair_free_def)
    show "\<forall>x \<in> set (map get_include cs). pair_free CHR ''<'' b x"
      using assms(4) b(4) by (auto intro: pair_free_get_include)
  qed
  show ?thesis
    unfolding render.simps Let_def
    by (intro pair_free_append pair_free_notin[OF assms(2)] pair_free_notin[OF assms(3)] j)
       (simp_all add: pair_free_def b b[symmetric])
qed

lemma root_no_block:
  assumes "b \<notin> set ''?p!xbt/''"
    and "CHR ''<'' \<notin> set s" and "CHR ''<'' \<notin> set ti"
    and "\<forall>c \<in> set cs. CHR ''<'' \<notin> set (rel_path c)"
  shows "\<nexists>pre post. render relpath (PTXMain ti s i qs cs fo fi) out = pre @ CHR ''<'' # b # post"
proof
  assume "\<exists>pre post. render relpath (PTXMain ti s i qs cs fo fi) out = pre @ CHR ''<'' # b # post"
  then obtain pre post
    where eq: "render relpath (PTXMain ti s i qs cs fo fi) out = pre @ CHR ''<'' # b # post"
    by blast
  have "has_pair CHR ''<'' b (render relpath (PTXMain ti s i qs cs fo fi) out)"
    unfolding eq by (rule has_pair_occurs)
  with root_pair_free[OF assms] show False
    by (simp only: pair_free_def)
qed

section \<open>Inclusion references\<close>

text \<open>
  C1. For a child \<open>c\<close> of a node \<open>n\<close>: the text \<open>render n\<close> holds the reference
  \<^verbatim>\<open><xi:include href="..." />\<close> whose href is \<open>rel_path c\<close>, the child's folder name joined with
  its file name. \<open>make_files n basepath\<close> performs the operations \<open>write_tree n basepath\<close>,
  which start with the write of \<open>n\<close>'s own file into \<open>basepath\<close>; the child's own file is the
  first write of the child's walk, and its path is the href resolved from \<open>basepath\<close>.
\<close>

theorem include_resolves_to_child_file:
  assumes "c \<in> set (children n)"
  shows \<open>(\<exists>pre post. render relpath n basepath =
              pre @ ''<xi:include href="'' @ rel_path c @ ''" />'' @ post)
       \<and> rel_path c = path_join (foldername c) (filename c)
       \<and> hd (write_tree relpath n basepath) =
           WriteFile (path_join basepath (filename n)) (render relpath n basepath)
       \<and> hd (write_tree relpath c (path_join basepath (foldername c))) =
           WriteFile (resolve_href basepath (rel_path c))
             (render relpath c (path_join basepath (foldername c)))
       \<and> hd (write_tree relpath c (path_join basepath (foldername c)))
           \<in> set (write_tree relpath n basepath)
       \<and> make_files relpath n basepath fs = run (write_tree relpath n basepath) fs\<close>
proof -
  have a: \<open>\<exists>pre post. render relpath n basepath =
              pre @ ''<xi:include href="'' @ rel_path c @ ''" />'' @ post\<close>
    using render_contains_include[OF assms, of relpath basepath]
    unfolding get_include_def append.assoc .
  have b: "hd (write_tree relpath c (path_join basepath (foldername c))) =
             WriteFile (resolve_href basepath (rel_path c))
               (render relpath c (path_join basepath (foldername c)))"
    by (simp add: hd_write_tree resolve_href_def rel_path_def path_join_assoc)
  have c: "hd (write_tree relpath c (path_join basepath (foldername c)))
             \<in> set (write_tree relpath n basepath)"
    using child_write_in_tree[OF assms, of basepath relpath] b by (simp add: resolve_href_def)
  show ?thesis
    using a b c by (simp add: rel_path_def hd_write_tree make_files_run_aux(1))
qed

theorem include_resolves_to_child_file_witness:
  "example_chapter \<in> set (children example_main)
   \<and> rel_path example_chapter = ''unit1/unit1.ptx''
   \<and> hd (write_tree relpath_plain example_main ''source'') =
       WriteFile ''source/main.ptx'' (render relpath_plain example_main ''source'')
   \<and> resolve_href ''source'' ''unit1/unit1.ptx'' = ''source/unit1/unit1.ptx''
   \<and> hd (write_tree relpath_plain example_chapter ''source/unit1'') =
       WriteFile ''source/unit1/unit1.ptx'' (render relpath_plain example_chapter ''source/unit1'')
   \<and> hd (write_tree relpath_plain example_chapter ''source/unit1'')
       \<in> set (write_tree relpath_plain example_main ''source'')"
proof -
  have h: "example_chapter \<in> set (children example_main)"
    by (simp add: example_main_def)
  have p0: "path_join ''source'' (filename example_main) = ''source/main.ptx''"
    by code_simp
  have p1: "path_join ''source'' (foldername example_chapter) = ''source/unit1''"
    by code_simp
  have p2: "rel_path example_chapter = ''unit1/unit1.ptx''"
    by code_simp
  have p3: "resolve_href ''source'' ''unit1/unit1.ptx'' = ''source/unit1/unit1.ptx''"
    by code_simp
  note t = include_resolves_to_child_file[OF h, of relpath_plain "''source''", unfolded p0 p1 p2 p3]
  have a: "hd (write_tree relpath_plain example_main ''source'') =
             WriteFile ''source/main.ptx'' (render relpath_plain example_main ''source'')"
    using t by blast
  have b: "hd (write_tree relpath_plain example_chapter ''source/unit1'') =
             WriteFile ''source/unit1/unit1.ptx'' (render relpath_plain example_chapter ''source/unit1'')"
    using t by blast
  have c: "hd (write_tree relpath_plain example_chapter ''source/unit1'')
             \<in> set (write_tree relpath_plain example_main ''source'')"
    using t by blast
  show ?thesis
    by (intro conjI h p2 a p3 b c)
qed

section \<open>Identifiers\<close>

text \<open>
  C5. For every element that a run can hold, the rendered text starts with the opening of
  the element up to the attribute \<^verbatim>\<open>xml:id\<close>, whose value is the identifier: the prefix of the
  role (\<^verbatim>\<open>ch-\<close>, \<^verbatim>\<open>sec-\<close>, \<^verbatim>\<open>subsec-\<close>, none for the root) followed by the slug of the title.
\<close>

theorem identifier_in_render:
  assumes "constructed slugify e"
  shows \<open>(\<exists>rest. render relpath e basepath =
             opening_text e @ ''xml:id="'' @ identifier_for e @ ''"'' @ rest)
         \<and> identifier_for e = role_prefix e @ slugify (title e)\<close>
proof -
  from constructed_fields[OF assms]
  have s: "title_slug e = slugify (title e)"
    and x: "(case e of PTXMain _ _ _ _ _ _ _ \<Rightarrow> True | _ \<Rightarrow> xml_id e = role_prefix e @ title_slug e)"
    by simp_all
  have \<open>\<exists>rest. render relpath e basepath =
             opening_text e @ ''xml:id="'' @ identifier_for e @ ''"'' @ rest\<close>
  proof (cases e)
    case (PTXMain t sl i qs cs fo fi)
    show ?thesis
      unfolding PTXMain by (simp add: identifier_for_def)
  next
    case (PTXChapter t sl i qs cs fo fi xid)
    with x have "xid = ''ch-'' @ sl" by simp
    then show ?thesis
      unfolding PTXChapter by (simp add: identifier_for_def)
  next
    case (PTXSection t sl i qs cs fo fi xid)
    with x have "xid = ''sec-'' @ sl" by simp
    then show ?thesis
      unfolding PTXSection by (simp add: identifier_for_def)
  next
    case (PTXSubsection t sl i qs cs fo fi xid)
    with x have "xid = ''subsec-'' @ sl" by simp
    then show ?thesis
      unfolding PTXSubsection by (simp add: identifier_for_def)
  qed
  then show ?thesis
    by (simp add: identifier_for_def s)
qed


theorem identifier_in_render_witness:
  \<open>constructed slugify_ascii (PTXChapter_init slugify_ascii ''Revenue Trends'' [] None None)
   \<and> identifier_for (PTXChapter_init slugify_ascii ''Revenue Trends'' [] None None) =
       ''ch-revenue-trends''
   \<and> (\<exists>rest. render relpath_plain (PTXChapter_init slugify_ascii ''Revenue Trends'' [] None None) ''source'' =
         ''\<newline>        <chapter '' @ ''xml:id="'' @ ''ch-revenue-trends'' @ ''"'' @ rest)
   \<and> constructed slugify_ascii (PTXMain_init slugify_ascii ''Stats Gold'' [] None None)
   \<and> identifier_for (PTXMain_init slugify_ascii ''Stats Gold'' [] None None) = ''stats-gold''\<close>
proof -
  have h: "constructed slugify_ascii (PTXChapter_init slugify_ascii ''Revenue Trends'' [] None None)"
    by (rule from_chapter)
  have h': "constructed slugify_ascii (PTXMain_init slugify_ascii ''Stats Gold'' [] None None)"
    by (rule from_main)
  have i: "role_prefix (PTXChapter_init slugify_ascii ''Revenue Trends'' [] None None) @
             slugify_ascii (title (PTXChapter_init slugify_ascii ''Revenue Trends'' [] None None)) =
           ''ch-revenue-trends''"
    by code_simp
  have i': "role_prefix (PTXMain_init slugify_ascii ''Stats Gold'' [] None None) @
             slugify_ascii (title (PTXMain_init slugify_ascii ''Stats Gold'' [] None None)) =
           ''stats-gold''"
    by code_simp
  have o: \<open>opening_text (PTXChapter_init slugify_ascii ''Revenue Trends'' [] None None) =
             ''\<newline>        <chapter ''\<close>
    by code_simp
  note t = identifier_in_render[OF h, of relpath_plain "''source''"]
  note t' = identifier_in_render[OF h', of relpath_plain "''source''"]
  from t have a: "identifier_for (PTXChapter_init slugify_ascii ''Revenue Trends'' [] None None) =
       ''ch-revenue-trends''"
    unfolding i by (rule conjunct2)
  from t' have a': "identifier_for (PTXMain_init slugify_ascii ''Stats Gold'' [] None None) =
       ''stats-gold''"
    unfolding i' by (rule conjunct2)
  from t have b: \<open>\<exists>rest. render relpath_plain (PTXChapter_init slugify_ascii ''Revenue Trends'' [] None None) ''source'' =
         ''\<newline>        <chapter '' @ ''xml:id="'' @ ''ch-revenue-trends'' @ ''"'' @ rest\<close>
    unfolding a o by (rule conjunct1)
  show ?thesis
    by (intro conjI h a b h' a')
qed

section \<open>Purity of rendering\<close>

text \<open>
  C7. The text that \<open>render\<close> returns is determined by the values of the attributes it
  reads (class, title, slug, identifier, introduction, questions, and the relative paths of
  the children), for a given argument \<open>basepath\<close> and a given \<open>relpath\<close>: two elements that
  agree on them render to the same text. In particular two calls on one unchanged element
  return identical text.
\<close>

theorem render_determined_by_fields:
  assumes "type_name e = type_name e'"
    and "title e = title e'"
    and "title_slug e = title_slug e'"
    and "introduction e = introduction e'"
    and "questions e = questions e'"
    and "map rel_path (children e) = map rel_path (children e')"
    and "type_name e \<noteq> ''PTXMain'' \<Longrightarrow> xml_id e = xml_id e'"
  shows "render relpath e basepath = render relpath e' basepath"
proof -
  have m: "map get_include (children e) = map get_include (children e')"
    using assms(6) by (simp only: map_get_include)
  show ?thesis
  proof (cases e)
    case a: PTXMain
    with assms(1) obtain t s i qs cs fo fi where b: "e' = PTXMain t s i qs cs fo fi"
      by (cases e') auto
    show ?thesis using assms(2,3) m unfolding a b by simp
  next
    case a: PTXChapter
    with assms(1) obtain t s i qs cs fo fi x where b: "e' = PTXChapter t s i qs cs fo fi x"
      by (cases e') auto
    show ?thesis using assms(2,4,5,7) m unfolding a b by simp
  next
    case a: PTXSection
    with assms(1) obtain t s i qs cs fo fi x where b: "e' = PTXSection t s i qs cs fo fi x"
      by (cases e') auto
    show ?thesis using assms(2,4,5,7) m unfolding a b by simp
  next
    case a: PTXSubsection
    with assms(1) obtain t s i qs cs fo fi x where b: "e' = PTXSubsection t s i qs cs fo fi x"
      by (cases e') auto
    show ?thesis using assms(2,4,5,7) m unfolding a b by simp
  qed
qed

theorem render_determined_by_fields_witness:
  "render relpath_plain example_chapter ''source/unit1'' =
   render relpath_plain
     (PTXChapter ''Unit1'' ''unit1'' [] [example_question] [] ''elsewhere'' ''other.ptx'' ''ch-unit1'')
     ''source/unit1''"
  by (rule render_determined_by_fields) (simp_all add: example_chapter_def)

section \<open>Failure of the question reader\<close>

text \<open>
  C9. The constructor of a question fails with \<open>XMLSyntaxError\<close> when the file does not
  parse, and with \<open>IndexError\<close> when the document has no node \<^verbatim>\<open>/quiz/question/name/text\<close>;
  these two exceptions are what the specification names \<^verbatim>\<open>ResourceParseError\<close>. When it
  returns, the title is the serialised node that was found, never a substitute; and the
  exception leaves the loop of \<^verbatim>\<open>compile_structural_element\<close> that called the constructor.
\<close>

theorem question_init_fails:
  "PTXStackQuestion_init slugify tostring path None = Inl XMLSyntaxError
   \<and> (xpath doc [''quiz'', ''question'', ''name'', ''text''] = [] \<longrightarrow>
        PTXStackQuestion_init slugify tostring path (Some doc) = Inl IndexError)
   \<and> (PTXStackQuestion_init slugify tostring path parsed = Inr q \<longrightarrow>
        (\<exists>doc t ts. parsed = Some doc
            \<and> xpath doc [''quiz'', ''question'', ''name'', ''text''] = t # ts
            \<and> q = \<lparr>filepath = path, xmlid = slugify path,
                    title_tag = tostring (Element ''title'' (etext t) (subelements t))\<rparr>))
   \<and> (endswith entry ''.xml'' \<and> entry \<noteq> ''gitsync_category.xml'' \<and>
        PTXStackQuestion_init slugify tostring (path_join basepath entry) parsed = Inl err \<longrightarrow>
        compile_entries slugify tostring basepath level (File entry parsed # rest) ptx_elem = Inl err)"
  by (auto simp: PTXStackQuestion_init_def split: option.splits list.splits)


theorem question_init_fails_witness:
  "PTXStackQuestion_init slugify_ascii tostring_plain ''source/stack/Unit1/q1.xml'' None =
     Inl XMLSyntaxError
   \<and> PTXStackQuestion_init slugify_ascii tostring_plain ''source/stack/Unit1/q1.xml''
       (Some (example_category ''A/B/Sales'')) = Inl IndexError
   \<and> PTXStackQuestion_init slugify_ascii tostring_plain ''source/stack/Unit1/q1.xml''
       (Some (example_quiz ''Question One'')) = Inr example_question
   \<and> compile_entries slugify_ascii tostring_plain ''source/stack/Unit1'' 1
       [File ''q1.xml'' None] example_chapter = Inl XMLSyntaxError"
proof -
  have x: "xpath (example_category ''A/B/Sales'') [''quiz'', ''question'', ''name'', ''text''] = []"
    by code_simp
  have y: "PTXStackQuestion_init slugify_ascii tostring_plain ''source/stack/Unit1/q1.xml''
       (Some (example_quiz ''Question One'')) = Inr example_question"
    by code_simp
  have z: "endswith ''q1.xml'' ''.xml'' \<and> ''q1.xml'' \<noteq> ''gitsync_category.xml'' \<and>
        PTXStackQuestion_init slugify_ascii tostring_plain
          (path_join ''source/stack/Unit1'' ''q1.xml'') None = Inl XMLSyntaxError"
    by code_simp
  show ?thesis
    using question_init_fails[where slugify = slugify_ascii and tostring = tostring_plain
        and path = "''source/stack/Unit1/q1.xml''" and doc = "example_category ''A/B/Sales''"
        and parsed = "Some (example_quiz ''Question One'')" and q = example_question]
      question_init_fails[where slugify = slugify_ascii and tostring = tostring_plain
        and entry = "''q1.xml''" and basepath = "''source/stack/Unit1''" and parsed = None
        and err = XMLSyntaxError and level = 1 and rest = "[]" and ptx_elem = example_chapter]
      x y z
    by blast
qed

section \<open>The writer\<close>

text \<open>
  C8. \<open>make_files\<close> performs the operations of \<open>write_tree\<close>: first the write of
  \<open>render node\<close> to the base path joined with the node's file name, then for each child in
  order the creation of the base path joined with the child's folder name, followed by the
  child's own walk in that folder. Creating a folder that is already a directory succeeds
  and changes nothing; more generally, when a walk succeeds from a state, it succeeds with
  the same result from every state in which each path holds either what it held before or
  what the walk leaves there, as after an earlier partial or complete run.
\<close>

theorem make_files_performs_write_tree:
  "make_files relpath node output_base_path fs = run (write_tree relpath node output_base_path) fs
   \<and> write_tree relpath node output_base_path =
       WriteFile (path_join output_base_path (filename node)) (render relpath node output_base_path) #
       concat (map (\<lambda>child.
                  Makedirs (path_join output_base_path (foldername child)) #
                  write_tree relpath child (path_join output_base_path (foldername child)))
                (children node))
   \<and> (fs p = Some Directory \<longrightarrow> perform (Makedirs p) fs = Inr fs)
   \<and> (make_files relpath node output_base_path fs = Inr fs' \<and> (\<forall>p. g p = fs p \<or> g p = fs' p) \<longrightarrow>
        make_files relpath node output_base_path g = Inr fs')"
proof -
  have a: "make_files relpath node output_base_path fs = run (write_tree relpath node output_base_path) fs"
    by (rule make_files_run_aux(1))
  have b: "write_tree relpath node output_base_path =
       WriteFile (path_join output_base_path (filename node)) (render relpath node output_base_path) #
       concat (map (\<lambda>child.
                  Makedirs (path_join output_base_path (foldername child)) #
                  write_tree relpath child (path_join output_base_path (foldername child)))
                (children node))"
    by (rule write_tree.simps)
  have c: "fs p = Some Directory \<longrightarrow> perform (Makedirs p) fs = Inr fs"
    by (simp add: makedirs_def)
  have d: "make_files relpath node output_base_path fs = Inr fs' \<and> (\<forall>p. g p = fs p \<or> g p = fs' p) \<longrightarrow>
        make_files relpath node output_base_path g = Inr fs'"
    using run_again[of "write_tree relpath node output_base_path" fs fs' g]
    by (simp add: make_files_run_aux(1))
  from a b c d show ?thesis by (intro conjI)
qed

theorem make_files_performs_write_tree_witness:
  "make_files relpath_plain example_main ''source'' [''source'' \<mapsto> Directory] = Inr example_out
   \<and> write_tree relpath_plain example_main ''source'' =
     [WriteFile ''source/main.ptx'' (render relpath_plain example_main ''source''),
      Makedirs ''source/unit1'',
      WriteFile ''source/unit1/unit1.ptx'' (render relpath_plain example_chapter ''source/unit1'')]
   \<and> perform (Makedirs ''source/unit1'') example_out = Inr example_out
   \<and> make_files relpath_plain example_main ''source''
        [''source'' \<mapsto> Directory, ''source/unit1'' \<mapsto> Directory] = Inr example_out"
proof -
  note t = make_files_performs_write_tree[of relpath_plain example_main "''source''"
      "[''source'' \<mapsto> Directory]" "''source/unit1''" example_out
      "[''source'' \<mapsto> Directory, ''source/unit1'' \<mapsto> Directory]"]
  note u = make_files_performs_write_tree[of relpath_plain example_main "''source''"
      example_out "''source/unit1''"]
  from t have a: "make_files relpath_plain example_main ''source'' [''source'' \<mapsto> Directory] = Inr example_out"
    by (simp only: example_run)
  have h1: "example_out ''source/unit1'' = Some Directory"
    by (simp add: example_out_def)
  from u h1 have c: "perform (Makedirs ''source/unit1'') example_out = Inr example_out"
    by blast
  have h2: "\<forall>p. [''source'' \<mapsto> Directory, ''source/unit1'' \<mapsto> Directory] p = [''source'' \<mapsto> Directory] p
              \<or> [''source'' \<mapsto> Directory, ''source/unit1'' \<mapsto> Directory] p = example_out p"
    by (simp add: example_out_def)
  from t a h2 have d: "make_files relpath_plain example_main ''source''
        [''source'' \<mapsto> Directory, ''source/unit1'' \<mapsto> Directory] = Inr example_out"
    by blast
  show ?thesis
    by (intro conjI a example_write_tree c d)
qed

section \<open>The tree builder\<close>

text \<open>
  C2. For every valid source tree (every descriptor and question file that the walk reaches
  is well formed) and every level from 0 to 3, the build returns an element tree. Counting
  levels from the root, its deepest element lies at the level of the deepest directory, or
  at level 3 if the directories go deeper: started at level 0, its depth is the minimum of
  the depth of the source tree and 3. It has one element for each directory that lies at
  most at level 3, and an element of level 3 has no children, whatever the directories
  below it hold.
\<close>

theorem build_depth_and_count:
  assumes "0 \<le> level" and "level \<le> 3" and "tree_ok level paths"
  shows "\<exists>e. compile_structural_element slugify tostring basepath paths t level = Inr e
           \<and> nat level + ptx_depth e = min (nat level + dir_depth paths) 3
           \<and> ptx_count e = dirs_upto (nat (3 - level)) paths
           \<and> (level = 3 \<longrightarrow> children e = [])"
proof -
  from build_succeeds_iff[OF assms(1,2)] assms(3) obtain e
    where e: "compile_structural_element slugify tostring basepath paths t level = Inr e"
    by blast
  from build_measures_aux[of "Dir [] paths" slugify tostring] assms(1,2) e
  have m: "ptx_depth e = min (dir_depth paths) (nat (3 - level))"
          "ptx_count e = dirs_upto (nat (3 - level)) paths"
    by simp_all
  have "nat level + ptx_depth e = min (nat level + dir_depth paths) 3"
    using m(1) assms(1,2) by linarith
  moreover have "level = 3 \<longrightarrow> children e = []"
  proof
    assume "level = 3"
    with compile_lists(2)[OF e] show "children e = []" by simp
  qed
  ultimately show ?thesis using e m(2) by blast
qed

theorem build_depth_and_count_witness:
  "tree_ok 0 example_deep \<and> dir_depth example_deep = 4
   \<and> (\<exists>e. compile_structural_element slugify_ascii tostring_plain ''source/stack'' example_deep ''Gold'' 0 = Inr e
          \<and> ptx_depth e = 3 \<and> ptx_count e = 4)
   \<and> (\<exists>e. compile_structural_element slugify_ascii tostring_plain ''source/stack/a/b/c''
              [Dir ''d'' [File ''q.xml'' (Some (example_quiz ''Deep''))]] ''c'' 3 = Inr e
          \<and> children e = [])"
proof -
  have h: "tree_ok 0 example_deep" by code_simp
  have d: "dir_depth example_deep = 4" by code_simp
  have n: "dirs_upto 3 example_deep = 4" by code_simp
  have h3: "tree_ok 3 [Dir ''d'' [File ''q.xml'' (Some (example_quiz ''Deep''))]]" by code_simp
  have a: "\<exists>e. compile_structural_element slugify_ascii tostring_plain ''source/stack'' example_deep ''Gold'' 0 = Inr e
          \<and> ptx_depth e = 3 \<and> ptx_count e = 4"
    using build_depth_and_count[of 0 example_deep slugify_ascii tostring_plain "''source/stack''" "''Gold''"] h
    by (simp add: d n)
  have b: "\<exists>e. compile_structural_element slugify_ascii tostring_plain ''source/stack/a/b/c''
              [Dir ''d'' [File ''q.xml'' (Some (example_quiz ''Deep''))]] ''c'' 3 = Inr e
          \<and> children e = []"
    using build_depth_and_count[of 3 "[Dir ''d'' [File ''q.xml'' (Some (example_quiz ''Deep''))]]"
        slugify_ascii tostring_plain "''source/stack/a/b/c''" "''c''"] h3
    by auto
  show ?thesis by (intro conjI h d a b)
qed

text \<open>
  C3. When the listing of a directory has a category descriptor that parses and whose node
  \<^verbatim>\<open>/quiz/question/category/text\<close> carries the text \<open>s\<close>, the element that the build returns
  for the directory has as title the last segment of \<open>s\<close> split at slashes, whatever
  provisional title (the name of the directory) was passed in. The title has no slash and
  is what follows the last slash of \<open>s\<close>.
\<close>

theorem category_title_overrides:
  assumes "find (\<lambda>p. name p = ''gitsync_category.xml'') paths = Some (File n (Some doc))"
    and "xpath doc [''quiz'', ''question'', ''category'', ''text''] = tg # tgs"
    and "etext tg = Some s"
    and "compile_structural_element slugify tostring basepath paths t level = Inr e"
  shows "title e = last (str_split CHR ''/'' s)
       \<and> CHR ''/'' \<notin> set (title e)
       \<and> (\<exists>pre. s = pre @ title e \<and> (pre = [] \<or> last pre = CHR ''/''))"
proof -
  have "title e = last (str_split CHR ''/'' s)"
    using compile_title[OF assms(4) category_title_found[OF assms(1,2,3)]] by simp
  with last_str_split[of "CHR ''/''" s] show ?thesis by simp
qed

theorem category_title_overrides_witness:
  "compile_structural_element slugify_ascii tostring_plain ''source/stack/Unit1'' example_sales ''Unit1'' 1 =
     Inr (PTXChapter ''Sales'' ''sales'' [] [example_question] [] ''sales'' ''sales.ptx'' ''ch-sales'')
   \<and> last (str_split CHR ''/'' ''A/B/Sales'') = ''Sales''
   \<and> title (PTXChapter ''Sales'' ''sales'' [] [example_question] [] ''sales'' ''sales.ptx'' ''ch-sales'') =
       last (str_split CHR ''/'' ''A/B/Sales'')"
proof -
  have f: "find (\<lambda>p. name p = ''gitsync_category.xml'') example_sales =
             Some (File ''gitsync_category.xml'' (Some (example_category ''A/B/Sales'')))"
    by code_simp
  have x: "xpath (example_category ''A/B/Sales'') [''quiz'', ''question'', ''category'', ''text''] =
             Element ''text'' (Some ''A/B/Sales'') [] # []"
    by code_simp
  have t: "etext (Element ''text'' (Some ''A/B/Sales'') []) = Some ''A/B/Sales''"
    by simp
  have c: "compile_structural_element slugify_ascii tostring_plain ''source/stack/Unit1'' example_sales ''Unit1'' 1 =
     Inr (PTXChapter ''Sales'' ''sales'' [] [example_question] [] ''sales'' ''sales.ptx'' ''ch-sales'')"
    by code_simp
  have l: "last (str_split CHR ''/'' ''A/B/Sales'') = ''Sales''"
    by code_simp
  from category_title_overrides[OF f x t c]
  have "title (PTXChapter ''Sales'' ''sales'' [] [example_question] [] ''sales'' ''sales.ptx'' ''ch-sales'') =
       last (str_split CHR ''/'' ''A/B/Sales'')"
    by (rule conjunct1)
  with c l show ?thesis by (intro conjI)
qed

text \<open>
  C4. Without a category descriptor in the listing the title step returns the provisional
  title, the element built has that title, and the build succeeds when the rest of the tree
  is in order. With a descriptor that does not parse the build returns \<open>XMLSyntaxError\<close>,
  with one that lacks the category node it returns \<open>IndexError\<close> (the two exceptions are
  what the specification names \<^verbatim>\<open>ResourceParseError\<close>); and whenever a descriptor or a question
  file in a directory that the walk reaches is not well formed, the whole build returns an
  exception and no element.
\<close>

theorem descriptor_absent_or_malformed:
  "(find (\<lambda>p. name p = ''gitsync_category.xml'') paths = None \<longrightarrow>
       category_title paths t = Inr t
     \<and> (compile_structural_element slugify tostring basepath paths t level = Inr e \<longrightarrow> title e = t)
     \<and> (0 \<le> level \<and> level \<le> 3 \<and> (\<forall>x \<in> set paths. entry_ok level x) \<longrightarrow>
          (\<exists>e'. compile_structural_element slugify tostring basepath paths t level = Inr e'
                \<and> title e' = t)))
   \<and> (find (\<lambda>p. name p = ''gitsync_category.xml'') paths = Some (File n None) \<longrightarrow>
        compile_structural_element slugify tostring basepath paths t level = Inl XMLSyntaxError)
   \<and> (find (\<lambda>p. name p = ''gitsync_category.xml'') paths = Some (File n (Some doc)) \<and>
      xpath doc [''quiz'', ''question'', ''category'', ''text''] = [] \<longrightarrow>
        compile_structural_element slugify tostring basepath paths t level = Inl IndexError)
   \<and> (0 \<le> level \<and> level \<le> 3 \<and> \<not> tree_ok level paths \<longrightarrow>
        (\<exists>err. compile_structural_element slugify tostring basepath paths t level = Inl err))"
proof (intro conjI impI)
  assume a: "find (\<lambda>p. name p = ''gitsync_category.xml'') paths = None"
  then show ct: "category_title paths t = Inr t"
    by (simp add: category_title_def)
  {
    assume "compile_structural_element slugify tostring basepath paths t level = Inr e"
    from compile_title[OF this ct] show "title e = t" by simp
  }
  {
    assume b: "0 \<le> level \<and> level \<le> 3 \<and> (\<forall>x \<in> set paths. entry_ok level x)"
    from a have "descriptor_ok paths" by (simp add: descriptor_ok_def)
    with b have "tree_ok level paths" by (simp add: tree_ok_def)
    with build_succeeds_iff[of level slugify tostring basepath paths t] b obtain e'
      where e': "compile_structural_element slugify tostring basepath paths t level = Inr e'"
      by blast
    from compile_title[OF e' ct] e'
    show "\<exists>e'. compile_structural_element slugify tostring basepath paths t level = Inr e' \<and> title e' = t"
      by blast
  }
next
  assume "find (\<lambda>p. name p = ''gitsync_category.xml'') paths = Some (File n None)"
  then show "compile_structural_element slugify tostring basepath paths t level = Inl XMLSyntaxError"
    by (subst compile_structural_element.simps) (simp add: category_title_def)
next
  assume "find (\<lambda>p. name p = ''gitsync_category.xml'') paths = Some (File n (Some doc)) \<and>
      xpath doc [''quiz'', ''question'', ''category'', ''text''] = []"
  then show "compile_structural_element slugify tostring basepath paths t level = Inl IndexError"
    by (subst compile_structural_element.simps) (simp add: category_title_def)
next
  assume b: "0 \<le> level \<and> level \<le> 3 \<and> \<not> tree_ok level paths"
  with build_succeeds_iff[of level slugify tostring basepath paths t]
  have "\<nexists>e. compile_structural_element slugify tostring basepath paths t level = Inr e"
    by blast
  then show "\<exists>err. compile_structural_element slugify tostring basepath paths t level = Inl err"
    by (cases "compile_structural_element slugify tostring basepath paths t level") auto
qed

theorem descriptor_absent_or_malformed_witness:
  "find (\<lambda>p. name p = ''gitsync_category.xml'') example_source = None
   \<and> compile_structural_element slugify_ascii tostring_plain ''source/stack'' example_source ''Gold'' 0 =
       Inr example_main
   \<and> title example_main = ''Gold''
   \<and> compile_structural_element slugify_ascii tostring_plain ''source/stack''
       [File ''gitsync_category.xml'' None] ''Gold'' 0 = Inl XMLSyntaxError
   \<and> compile_structural_element slugify_ascii tostring_plain ''source/stack''
       [File ''gitsync_category.xml'' (Some (example_quiz ''Question One''))] ''Gold'' 0 = Inl IndexError
   \<and> (\<exists>err. compile_structural_element slugify_ascii tostring_plain ''source/stack''
         [Dir ''Unit1'' [File ''gitsync_category.xml'' None]] ''Gold'' 0 = Inl err)"
proof -
  have f: "find (\<lambda>p. name p = ''gitsync_category.xml'') example_source = None"
    by code_simp
  have c: "compile_structural_element slugify_ascii tostring_plain ''source/stack'' example_source ''Gold'' 0 =
       Inr example_main"
    by code_simp
  from descriptor_absent_or_malformed[of example_source "''Gold''" slugify_ascii tostring_plain
      "''source/stack''" 0 example_main] f c
  have t: "title example_main = ''Gold''"
    by blast
  have f1: "find (\<lambda>p. name p = ''gitsync_category.xml'') [File ''gitsync_category.xml'' None] =
              Some (File ''gitsync_category.xml'' None)"
    by code_simp
  from descriptor_absent_or_malformed[of "[File ''gitsync_category.xml'' None]" "''Gold''"
      slugify_ascii tostring_plain "''source/stack''" 0 _ "''gitsync_category.xml''"] f1
  have m1: "compile_structural_element slugify_ascii tostring_plain ''source/stack''
       [File ''gitsync_category.xml'' None] ''Gold'' 0 = Inl XMLSyntaxError"
    by blast
  have f2: "find (\<lambda>p. name p = ''gitsync_category.xml'')
              [File ''gitsync_category.xml'' (Some (example_quiz ''Question One''))] =
              Some (File ''gitsync_category.xml'' (Some (example_quiz ''Question One'')))
            \<and> xpath (example_quiz ''Question One'') [''quiz'', ''question'', ''category'', ''text''] = []"
    by code_simp
  from descriptor_absent_or_malformed[of
      "[File ''gitsync_category.xml'' (Some (example_quiz ''Question One''))]" "''Gold''"
      slugify_ascii tostring_plain "''source/stack''" 0 _ "''gitsync_category.xml''"
      "example_quiz ''Question One''"] f2
  have m2: "compile_structural_element slugify_ascii tostring_plain ''source/stack''
       [File ''gitsync_category.xml'' (Some (example_quiz ''Question One''))] ''Gold'' 0 = Inl IndexError"
    by blast
  have f3: "\<not> tree_ok 0 [Dir ''Unit1'' [File ''gitsync_category.xml'' None]]"
    by code_simp
  from descriptor_absent_or_malformed[of "[Dir ''Unit1'' [File ''gitsync_category.xml'' None]]" "''Gold''"
      slugify_ascii tostring_plain "''source/stack''" 0] f3
  have m3: "\<exists>err. compile_structural_element slugify_ascii tostring_plain ''source/stack''
         [Dir ''Unit1'' [File ''gitsync_category.xml'' None]] ''Gold'' 0 = Inl err"
    by simp
  show ?thesis by (intro conjI f c t m1 m2 m3)
qed

text \<open>
  C6. The questions of the element returned for a directory are the question files of the
  listing, in the order of the listing, and its children are the elements built for the
  subdirectories of the listing, in the order of the listing (none from level 3 on).
\<close>

theorem build_keeps_listing_order:
  assumes "compile_structural_element slugify tostring basepath paths t level = Inr e"
  shows "map Inr (questions e) =
           map (\<lambda>f. PTXStackQuestion_init slugify tostring (path_join basepath (name f)) (content f))
             (filter is_question_file paths)
       \<and> map filepath (questions e) =
           map (\<lambda>f. path_join basepath (name f)) (filter is_question_file paths)
       \<and> map Inr (children e) =
           (if level < 3 then
              map (\<lambda>d. compile_structural_element slugify tostring (path_join basepath (name d))
                         (entries d) (name d) (level + 1))
                (filter isdir paths)
            else [])"
proof -
  note l = compile_lists(1,2)[OF assms]
  have "list_all2 (\<lambda>q f. filepath q = path_join basepath (name f))
          (questions e) (filter is_question_file paths)"
    using map_Inr_list_all2[OF l(1)]
    by (rule list_all2_mono) (simp add: question_init_filepath)
  then have "map filepath (questions e) =
           map (\<lambda>f. path_join basepath (name f)) (filter is_question_file paths)"
    by (rule list_all2_map_eq)
  with l show ?thesis by simp
qed

theorem build_keeps_listing_order_witness:
  "\<exists>e. compile_structural_element slugify_ascii tostring_plain ''source/stack/Unit1'' example_unsorted
          ''Unit1'' 1 = Inr e
       \<and> map filepath (questions e) = [''source/stack/Unit1/q2.xml'', ''source/stack/Unit1/q1.xml'']"
proof -
  have c: "compile_structural_element slugify_ascii tostring_plain ''source/stack/Unit1'' example_unsorted
          ''Unit1'' 1 =
        Inr (PTXChapter ''Unit1'' ''unit1'' []
              [\<lparr>filepath = ''source/stack/Unit1/q2.xml'', xmlid = ''source-stack-unit1-q2-xml'',
                 title_tag = ''<title>Two</title>''\<rparr>,
               \<lparr>filepath = ''source/stack/Unit1/q1.xml'', xmlid = ''source-stack-unit1-q1-xml'',
                 title_tag = ''<title>One</title>''\<rparr>]
              [] ''unit1'' ''unit1.ptx'' ''ch-unit1'')"
    by code_simp
  have m: "map (\<lambda>f. path_join ''source/stack/Unit1'' (name f)) (filter is_question_file example_unsorted) =
             [''source/stack/Unit1/q2.xml'', ''source/stack/Unit1/q1.xml'']"
    by code_simp
  from build_keeps_listing_order[OF c] m c show ?thesis
    by simp
qed

text \<open>
  C10. At level 0 the build returns a \<^verbatim>\<open>PTXMain\<close> whose questions are the question files of
  the root listing, each one parsed (a malformed one makes the build return an exception).
  The text that \<^verbatim>\<open>PTXMain\<close> renders, and every operation of the writer on it, are the same
  whatever its questions and its introduction are. And the text itself has no introduction
  block and no question block: when neither the slug, nor the title, nor the relative path
  of a child holds the character \<^verbatim>\<open><\<close>, the text of the root contains neither
  \<^verbatim>\<open><introduction>\<close>, nor \<^verbatim>\<open><exercise>\<close>, nor \<^verbatim>\<open><stack \<close> (the title is written unescaped, so a
  title that holds such a tag would carry it into the text).
\<close>

theorem root_questions_not_rendered:
  "(compile_structural_element slugify tostring basepath paths t 0 = Inr e \<longrightarrow>
       type_name e = ''PTXMain''
     \<and> map Inr (questions e) =
         map (\<lambda>f. PTXStackQuestion_init slugify tostring (path_join basepath (name f)) (content f))
           (filter is_question_file paths))
   \<and> (f \<in> set paths \<and> is_question_file f \<and> \<not> question_ok (content f) \<longrightarrow>
        (\<exists>err. compile_structural_element slugify tostring basepath paths t 0 = Inl err))
   \<and> render relpath (PTXMain ti s i qs cs fo fi) out = render relpath (PTXMain ti s i' qs' cs fo fi) out
   \<and> write_tree relpath (PTXMain ti s i qs cs fo fi) out =
       write_tree relpath (PTXMain ti s i' qs' cs fo fi) out
   \<and> make_files relpath (PTXMain ti s i qs cs fo fi) out fs =
       make_files relpath (PTXMain ti s i' qs' cs fo fi) out fs
   \<and> (CHR ''<'' \<notin> set s \<and> CHR ''<'' \<notin> set ti \<and> (\<forall>c \<in> set cs. CHR ''<'' \<notin> set (rel_path c)) \<longrightarrow>
        (\<nexists>pre post. render relpath (PTXMain ti s i qs cs fo fi) out = pre @ ''<introduction>'' @ post)
      \<and> (\<nexists>pre post. render relpath (PTXMain ti s i qs cs fo fi) out = pre @ ''<exercise>'' @ post)
      \<and> (\<nexists>pre post. render relpath (PTXMain ti s i qs cs fo fi) out = pre @ ''<stack '' @ post))"
proof -
  have a: "compile_structural_element slugify tostring basepath paths t 0 = Inr e \<longrightarrow>
       type_name e = ''PTXMain''
     \<and> map Inr (questions e) =
         map (\<lambda>f. PTXStackQuestion_init slugify tostring (path_join basepath (name f)) (content f))
           (filter is_question_file paths)"
    using compile_lists(1,3)[of slugify tostring basepath paths t 0 e] by simp
  have b: "f \<in> set paths \<and> is_question_file f \<and> \<not> question_ok (content f) \<longrightarrow>
        (\<exists>err. compile_structural_element slugify tostring basepath paths t 0 = Inl err)"
  proof
    assume h: "f \<in> set paths \<and> is_question_file f \<and> \<not> question_ok (content f)"
    then have "\<not> entry_ok 0 f"
      by (cases f) (auto simp: is_question_file_def)
    with h have "\<not> tree_ok 0 paths" by (auto simp: tree_ok_def)
    with build_succeeds_iff[of 0 slugify tostring basepath paths t]
    have "\<nexists>e. compile_structural_element slugify tostring basepath paths t 0 = Inr e"
      by simp
    then show "\<exists>err. compile_structural_element slugify tostring basepath paths t 0 = Inl err"
      by (cases "compile_structural_element slugify tostring basepath paths t 0") auto
  qed
  have c: "render relpath (PTXMain ti s i qs cs fo fi) out = render relpath (PTXMain ti s i' qs' cs fo fi) out"
    by (simp only: render.simps)
  have d: "write_tree relpath (PTXMain ti s i qs cs fo fi) out =
       write_tree relpath (PTXMain ti s i' qs' cs fo fi) out"
    by (subst (1 2) write_tree.simps) (simp only: c PTXStructuralElement.sel)
  have e: "make_files relpath (PTXMain ti s i qs cs fo fi) out fs =
       make_files relpath (PTXMain ti s i' qs' cs fo fi) out fs"
    by (simp only: make_files_run_aux(1) d)
  have g: "CHR ''<'' \<notin> set s \<and> CHR ''<'' \<notin> set ti \<and> (\<forall>c \<in> set cs. CHR ''<'' \<notin> set (rel_path c)) \<longrightarrow>
        (\<nexists>pre post. render relpath (PTXMain ti s i qs cs fo fi) out = pre @ ''<introduction>'' @ post)
      \<and> (\<nexists>pre post. render relpath (PTXMain ti s i qs cs fo fi) out = pre @ ''<exercise>'' @ post)
      \<and> (\<nexists>pre post. render relpath (PTXMain ti s i qs cs fo fi) out = pre @ ''<stack '' @ post)"
  proof (intro impI conjI)
    assume h: "CHR ''<'' \<notin> set s \<and> CHR ''<'' \<notin> set ti \<and> (\<forall>c \<in> set cs. CHR ''<'' \<notin> set (rel_path c))"
    then have h1: "CHR ''<'' \<notin> set s" and h2: "CHR ''<'' \<notin> set ti"
      and h3: "\<forall>c \<in> set cs. CHR ''<'' \<notin> set (rel_path c)"
      by simp_all
    have w: "''<introduction>'' @ post = CHR ''<'' # CHR ''i'' # (''ntroduction>'' @ post)"
       "''<exercise>'' @ post = CHR ''<'' # CHR ''e'' # (''xercise>'' @ post)"
       "''<stack '' @ post = CHR ''<'' # CHR ''s'' # (''tack '' @ post)" for post
      by simp_all
    have ni: "CHR ''i'' \<notin> set ''?p!xbt/''" and ne: "CHR ''e'' \<notin> set ''?p!xbt/''"
      and ns: "CHR ''s'' \<notin> set ''?p!xbt/''"
      by simp_all
    show "\<nexists>pre post. render relpath (PTXMain ti s i qs cs fo fi) out = pre @ ''<introduction>'' @ post"
      unfolding w using root_no_block[OF ni h1 h2 h3, of relpath i qs fo fi out] by blast
    show "\<nexists>pre post. render relpath (PTXMain ti s i qs cs fo fi) out = pre @ ''<exercise>'' @ post"
      unfolding w using root_no_block[OF ne h1 h2 h3, of relpath i qs fo fi out] by blast
    show "\<nexists>pre post. render relpath (PTXMain ti s i qs cs fo fi) out = pre @ ''<stack '' @ post"
      unfolding w using root_no_block[OF ns h1 h2 h3, of relpath i qs fo fi out] by blast
  qed
  from a b c d e g show ?thesis by (intro conjI)
qed

theorem root_questions_not_rendered_witness:
  "compile_structural_element slugify_ascii tostring_plain ''source/stack''
      [File ''q0.xml'' (Some (example_quiz ''Root Question''))] ''Gold'' 0 =
     Inr (PTXMain ''Gold'' ''gold'' []
            [\<lparr>filepath = ''source/stack/q0.xml'', xmlid = ''source-stack-q0-xml'',
               title_tag = ''<title>Root Question</title>''\<rparr>] [] ''.'' ''main.ptx'')
   \<and> type_name (PTXMain ''Gold'' ''gold'' []
            [\<lparr>filepath = ''source/stack/q0.xml'', xmlid = ''source-stack-q0-xml'',
               title_tag = ''<title>Root Question</title>''\<rparr>] [] ''.'' ''main.ptx'') = ''PTXMain''
   \<and> render relpath_plain (PTXMain ''Gold'' ''gold'' []
            [\<lparr>filepath = ''source/stack/q0.xml'', xmlid = ''source-stack-q0-xml'',
               title_tag = ''<title>Root Question</title>''\<rparr>] [] ''.'' ''main.ptx'') ''source'' =
       render relpath_plain (PTXMain ''Gold'' ''gold'' [] [] [] ''.'' ''main.ptx'') ''source''
   \<and> (\<exists>err. compile_structural_element slugify_ascii tostring_plain ''source/stack''
         [File ''q0.xml'' None] ''Gold'' 0 = Inl err)
   \<and> (\<nexists>pre post. render relpath_plain (PTXMain ''Gold'' ''gold'' []
            [\<lparr>filepath = ''source/stack/q0.xml'', xmlid = ''source-stack-q0-xml'',
               title_tag = ''<title>Root Question</title>''\<rparr>] [] ''.'' ''main.ptx'') ''source'' =
          pre @ ''<introduction>'' @ post)
   \<and> (\<nexists>pre post. render relpath_plain (PTXMain ''Gold'' ''gold'' []
            [\<lparr>filepath = ''source/stack/q0.xml'', xmlid = ''source-stack-q0-xml'',
               title_tag = ''<title>Root Question</title>''\<rparr>] [] ''.'' ''main.ptx'') ''source'' =
          pre @ ''<exercise>'' @ post)
   \<and> (\<nexists>pre post. render relpath_plain example_main ''source'' = pre @ ''<introduction>'' @ post)"
proof -
  have c: "compile_structural_element slugify_ascii tostring_plain ''source/stack''
      [File ''q0.xml'' (Some (example_quiz ''Root Question''))] ''Gold'' 0 =
     Inr (PTXMain ''Gold'' ''gold'' []
            [\<lparr>filepath = ''source/stack/q0.xml'', xmlid = ''source-stack-q0-xml'',
               title_tag = ''<title>Root Question</title>''\<rparr>] [] ''.'' ''main.ptx'')"
    by code_simp
  note t = root_questions_not_rendered[where slugify = slugify_ascii and tostring = tostring_plain
      and basepath = "''source/stack''" and t = "''Gold''"
      and paths = "[File ''q0.xml'' (Some (example_quiz ''Root Question''))]"
      and e = "PTXMain ''Gold'' ''gold'' []
            [\<lparr>filepath = ''source/stack/q0.xml'', xmlid = ''source-stack-q0-xml'',
               title_tag = ''<title>Root Question</title>''\<rparr>] [] ''.'' ''main.ptx''"
      and relpath = relpath_plain and ti = "''Gold''" and s = "''gold''" and i = "[]" and i' = "[]"
      and qs = "[\<lparr>filepath = ''source/stack/q0.xml'', xmlid = ''source-stack-q0-xml'',
               title_tag = ''<title>Root Question</title>''\<rparr>]" and qs' = "[]" and cs = "[]"
      and fo = "''.''" and fi = "''main.ptx''" and out = "''source''"]
  from t c have a: "type_name (PTXMain ''Gold'' ''gold'' []
            [\<lparr>filepath = ''source/stack/q0.xml'', xmlid = ''source-stack-q0-xml'',
               title_tag = ''<title>Root Question</title>''\<rparr>] [] ''.'' ''main.ptx'') = ''PTXMain''"
    by blast
  from t have b: "render relpath_plain (PTXMain ''Gold'' ''gold'' []
            [\<lparr>filepath = ''source/stack/q0.xml'', xmlid = ''source-stack-q0-xml'',
               title_tag = ''<title>Root Question</title>''\<rparr>] [] ''.'' ''main.ptx'') ''source'' =
       render relpath_plain (PTXMain ''Gold'' ''gold'' [] [] [] ''.'' ''main.ptx'') ''source''"
    by blast
  have h0: "CHR ''<'' \<notin> set ''gold'' \<and> CHR ''<'' \<notin> set ''Gold'' \<and>
            (\<forall>c \<in> set ([]::PTXStructuralElement list). CHR ''<'' \<notin> set (rel_path c))"
    by simp
  from t h0 have n1: "\<nexists>pre post. render relpath_plain (PTXMain ''Gold'' ''gold'' []
            [\<lparr>filepath = ''source/stack/q0.xml'', xmlid = ''source-stack-q0-xml'',
               title_tag = ''<title>Root Question</title>''\<rparr>] [] ''.'' ''main.ptx'') ''source'' =
          pre @ ''<introduction>'' @ post"
    by blast
  from t h0 have n2: "\<nexists>pre post. render relpath_plain (PTXMain ''Gold'' ''gold'' []
            [\<lparr>filepath = ''source/stack/q0.xml'', xmlid = ''source-stack-q0-xml'',
               title_tag = ''<title>Root Question</title>''\<rparr>] [] ''.'' ''main.ptx'') ''source'' =
          pre @ ''<exercise>'' @ post"
    by blast
  have h: "File ''q0.xml'' None \<in> set [File ''q0.xml'' None] \<and> is_question_file (File ''q0.xml'' None)
           \<and> \<not> question_ok (content (File ''q0.xml'' None))"
    by code_simp
  from root_questions_not_rendered[where slugify = slugify_ascii and tostring = tostring_plain
      and basepath = "''source/stack''" and t = "''Gold''"
      and paths = "[File ''q0.xml'' None]" and f = "File ''q0.xml'' None"] h
  have d: "\<exists>err. compile_structural_element slugify_ascii tostring_plain ''source/stack''
         [File ''q0.xml'' None] ''Gold'' 0 = Inl err"
    by blast
  have h1: "CHR ''<'' \<notin> set ''gold'' \<and> CHR ''<'' \<notin> set ''Gold'' \<and>
            (\<forall>c \<in> set [example_chapter]. CHR ''<'' \<notin> set (rel_path c))"
    by code_simp
  from root_questions_not_rendered[where relpath = relpath_plain and ti = "''Gold''" and s = "''gold''"
      and i = "[]" and qs = "[]" and cs = "[example_chapter]" and fo = "''.''" and fi = "''main.ptx''"
      and out = "''source''"] h1
  have n3: "\<nexists>pre post. render relpath_plain example_main ''source'' = pre @ ''<introduction>'' @ post"
    unfolding example_main_def by blast
  show ?thesis by (intro conjI c a b d n1 n2 n3)
qed

end
